theory Spec2Isabelle
  imports Main "HOL-Library.Word"
begin

section \<open>Error values\<close>

text \<open>
  Go's \<^verbatim>\<open>error\<close> is an interface; the program only ever compares an error with
  \<^verbatim>\<open>nil\<close> and with the sentinels \<^verbatim>\<open>context.DeadlineExceeded\<close> and
  \<^verbatim>\<open>http.ErrServerClosed\<close> (by \<^verbatim>\<open>==\<close>), and asks it for its message. The
  universe of error values below has one constructor per sentinel, one for the values of
  \<^verbatim>\<open>errors.New\<close>, one for an error that wraps another one (\<^verbatim>\<open>fmt.Errorf\<close> with
  \<^verbatim>\<open>%w\<close>; the string is the whole formatted message), and one for a
  \<^verbatim>\<open>*LameDuckError\<close> stored in an \<^verbatim>\<open>error\<close>, where \<open>None\<close> is the nil pointer.
  A nil \<^verbatim>\<open>error\<close> is \<open>None :: error option\<close>.

  \<^verbatim>\<open>
  type LameDuckError struct {
      Expired bool
      Err     error
  }
  \<close>
\<close>

datatype error =
    DeadlineExceeded
  | Canceled
  | ErrServerClosed
  | ErrorString string
  | WrapError string error
  | LameDuck "LameDuckError option"
and LameDuckError =
    LameDuckError (Expired: bool) (Err: "error option")

text \<open>\<^verbatim>\<open>strings.Join(elems, sep)\<close>\<close>

fun strings_Join :: "string list \<Rightarrow> string \<Rightarrow> string" where
  "strings_Join [] sep = []"
| "strings_Join [x] sep = x"
| "strings_Join (x # y # ys) sep = x @ sep @ strings_Join (y # ys) sep"

text \<open>
  The \<^verbatim>\<open>Error()\<close> method of every error value. For a \<^verbatim>\<open>*LameDuckError\<close> it is
  the source's method (server.go):
  \<^verbatim>\<open>
  func (lde *LameDuckError) Error() string {
      if lde == nil { return "" }
      var msgs []string
      if lde.Expired { msgs = append(msgs, "Lame-duck period has expired") }
      if lde.Err != nil {
          if msg := lde.Err.Error(); msg != "" { msgs = append(msgs, msg) }
      }
      if len(msgs) == 0 { return "" }
      return strings.Join(msgs, " + ")
  }
  \<close>
\<close>

fun error_Error :: "error \<Rightarrow> string"
  and LameDuckError_Error :: "LameDuckError option \<Rightarrow> string" where
  "error_Error DeadlineExceeded = ''context deadline exceeded''"
| "error_Error Canceled = ''context canceled''"
| "error_Error ErrServerClosed = ''http: Server closed''"
| "error_Error (ErrorString s) = s"
| "error_Error (WrapError s e) = s"
| "error_Error (LameDuck p) = LameDuckError_Error p"
| "LameDuckError_Error None = []"
| "LameDuckError_Error (Some (LameDuckError expired err)) =
     (let msgs = (if expired then [''Lame-duck period has expired''] else []);
          msgs = (case err of
                    None \<Rightarrow> msgs
                  | Some e \<Rightarrow> (let msg = error_Error e in
                               if msg \<noteq> [] then msgs @ [msg] else msgs))
      in if length msgs = 0 then [] else strings_Join msgs '' + '')"

text \<open>
  \<^verbatim>\<open>
  func (lde *LameDuckError) Unwrap() error {
      if lde == nil { return nil }
      return lde.Err
  }
  \<close>
\<close>

fun LameDuckError_Unwrap :: "LameDuckError option \<Rightarrow> error option" where
  "LameDuckError_Unwrap None = None"
| "LameDuckError_Unwrap (Some lde) = Err lde"

section \<open>Configuration\<close>

text \<open>
  \<^verbatim>\<open>os.Signal\<close> values are signal numbers (\<^verbatim>\<open>unix.SIGINT\<close> is 2, \<^verbatim>\<open>unix.SIGTERM\<close>
  is 15); a \<^verbatim>\<open>time.Duration\<close> is an \<^verbatim>\<open>int64\<close> count of nanoseconds, read signed.
  A \<^verbatim>\<open>Server\<close>, a \<^verbatim>\<open>Logger\<close> and a \<^verbatim>\<open>HookFunction\<close> are references to objects
  of the caller, named by a number; \<open>None\<close> is the nil interface or the nil function.
\<close>

type_synonym Signal = nat
type_synonym Duration = "64 word"
type_synonym Server = nat
type_synonym Logger = nat
type_synonym HookFunction = nat

definition SIGINT :: Signal where "SIGINT = 2"
definition SIGTERM :: Signal where "SIGTERM = 15"
definition Second :: Duration where "Second = 1000000000"

definition defaultPeriod :: Duration where "defaultPeriod = 3 * Second"
definition defaultSignals :: "Signal list" where "defaultSignals = [SIGINT, SIGTERM]"

text \<open>
  \<^verbatim>\<open>
  const ( Unknown State = iota; NotStarted; Running; Failed; Stopping; Stopped )
  \<close>
\<close>

datatype State = Unknown | NotStarted | Running | Failed | Stopping | Stopped

fun State_String :: "State \<Rightarrow> string" where
  "State_String NotStarted = ''NOT_STARTED''"
| "State_String Running = ''RUNNING''"
| "State_String Failed = ''FAILED''"
| "State_String Stopped = ''STOPPED''"
| "State_String Stopping = ''STOPPING''"
| "State_String Unknown = ''UNKNOWN''"

text \<open>
  The value of the field \<^verbatim>\<open>logf\<close>: the default \<^verbatim>\<open>log.Infof\<close>, the method value
  \<^verbatim>\<open>l.Infof\<close> of a Logger, or the silent function literal of \<^verbatim>\<open>loggerOption.set\<close>.
  A \<^verbatim>\<open>chan struct{}\<close> that is only ever closed is open or closed; \<open>None\<close> is the nil
  channel.
\<close>

datatype logfn = log_Infof | Logger_Infof Logger | silent
datatype chan = Open | Closed

text \<open>
  \<^verbatim>\<open>
  type Runner struct {
      server  Server
      period  time.Duration
      escOK   bool
      signals []os.Signal
      logf    func(string, ...interface{})
      psHook  hookFunction
      state   State
      ready   chan struct{}
      done    chan struct{}
      once sync.Once
  }
  \<close>
  The field \<^verbatim>\<open>done\<close> is \<open>doneC\<close> here; \<open>once\<close> holds whether the \<^verbatim>\<open>sync.Once\<close> has run.
\<close>

record Runner =
  server :: "Server option"
  period :: Duration
  escOK :: bool
  signals :: "Signal list"
  logf :: "logfn option"
  psHook :: "HookFunction option"
  state :: State
  ready :: "chan option"
  doneC :: "chan option"
  once :: bool

text \<open>
  The implementations of the interface \<^verbatim>\<open>Option\<close>: the types \<^verbatim>\<open>period\<close>,
  \<^verbatim>\<open>signals\<close>, \<^verbatim>\<open>*loggerOption\<close>, \<^verbatim>\<open>hookFunction\<close> and \<^verbatim>\<open>*escOK\<close>, and the functions
  that build them.
\<close>

datatype Option =
    period_opt Duration
  | signals_opt "Signal list"
  | loggerOption "Logger option"
  | hookFunction "HookFunction option"
  | escOK_opt

definition Period :: "Duration \<Rightarrow> Option" where "Period p = period_opt p"
definition Signals :: "Signal list \<Rightarrow> Option" where "Signals s = signals_opt s"
definition WithLogger :: "Logger option \<Rightarrow> Option" where "WithLogger l = loggerOption l"
definition WithoutLogger :: Option where "WithoutLogger = loggerOption None"
definition WithPreShutdownHook :: "HookFunction option \<Rightarrow> Option" where
  "WithPreShutdownHook f = hookFunction f"
definition ErrServerClosedOK :: Option where "ErrServerClosedOK = escOK_opt"

text \<open>A call either returns or panics.\<close>

datatype 'a go = Returns 'a | Panics

text \<open>
  The methods \<^verbatim>\<open>set(*Runner)\<close>. For the logger:
  \<^verbatim>\<open>
  func (o *loggerOption) set(r *Runner) {
      if r.logf = o.logger.Infof; r.logf == nil {
          // a "silent" logger
          r.logf = func(string, ...interface{}) {}
      }
  }
  \<close>
  Evaluating the method value \<^verbatim>\<open>o.logger.Infof\<close> of a nil interface panics (Go
  specification, Selectors: "If x is of interface type and has the value nil, calling or
  evaluating the method x.f causes a run-time panic"), so the assignment is never reached
  for a nil \<^verbatim>\<open>Logger\<close>, and a method value that was evaluated is never nil.
\<close>

fun Option_set :: "Option \<Rightarrow> Runner \<Rightarrow> Runner go" where
  "Option_set (period_opt p) r = Returns (r\<lparr>period := p\<rparr>)"
| "Option_set (signals_opt s) r = Returns (r\<lparr>signals := s\<rparr>)"
| "Option_set (loggerOption l) r =
     (case l of
        None \<Rightarrow> Panics
      | Some lg \<Rightarrow>
          (let f = Some (Logger_Infof lg)
           in Returns (r\<lparr>logf := (if f = None then Some silent else f)\<rparr>)))"
| "Option_set (hookFunction f) r = Returns (r\<lparr>psHook := f\<rparr>)"
| "Option_set escOK_opt r = Returns (r\<lparr>escOK := True\<rparr>)"

text \<open>\<^verbatim>\<open>for _, o := range options { o.set(r) }\<close>\<close>

fun apply_options :: "Option list \<Rightarrow> Runner \<Rightarrow> Runner go" where
  "apply_options [] r = Returns r"
| "apply_options (opt # opts) r =
     (case Option_set opt r of Panics \<Rightarrow> Panics | Returns r' \<Rightarrow> apply_options opts r')"

text \<open>
  \<^verbatim>\<open>
  func newRunner(svr Server, options []Option) (*Runner, error) {
      if svr == nil { return nil, errors.New("nil Server") }
      r := &Runner{ server: svr, period: defaultPeriod, signals: defaultSignals,
          logf: log.Infof, state: NotStarted,
          ready: make(chan struct{}), done: make(chan struct{}) }
      for _, o := range options { o.set(r) }
      if r.period <= 0 {
          return nil, errors.New("lame-duck period must be greater than zero") }
      if len(r.signals) == 0 {
          return nil, errors.New("no lame-duck signals defined") }
      return r, nil
  }
  \<close>
  The result \<^verbatim>\<open>(nil, err)\<close> is \<open>Inl err\<close>, the result \<^verbatim>\<open>(r, nil)\<close> is \<open>Inr r\<close>.
\<close>

definition newRunner :: "Server option \<Rightarrow> Option list \<Rightarrow> (error + Runner) go" where
  "newRunner svr options =
     (if svr = None then Returns (Inl (ErrorString ''nil Server''))
      else
        (case apply_options options
                \<lparr>server = svr, period = defaultPeriod, escOK = False,
                 signals = defaultSignals, logf = Some log_Infof, psHook = None,
                 state = NotStarted, ready = Some Open, doneC = Some Open, once = False\<rparr> of
           Panics \<Rightarrow> Panics
         | Returns r \<Rightarrow>
             if sint (period r) \<le> 0
             then Returns (Inl (ErrorString ''lame-duck period must be greater than zero''))
             else if length (signals r) = 0
             then Returns (Inl (ErrorString ''no lame-duck signals defined''))
             else Returns (Inr r)))"

text \<open>
  \<^verbatim>\<open>
  func (r *Runner) State() State {
      if r == nil || r.done == nil { return Unknown }
      return r.state
  }
  \<close>
\<close>

definition Runner_State :: "Runner option \<Rightarrow> State" where
  "Runner_State p =
     (case p of None \<Rightarrow> Unknown
      | Some r \<Rightarrow> if doneC r = None then Unknown else state r)"

text \<open>
  \<^verbatim>\<open>
  func (r *Runner) serve(ctx context.Context) error {
      if r == nil { return errors.New("bad state: nil receiver") }
      err := r.server.Serve(ctx)
      switch {
      case err == nil: return nil
      case r.escOK && err == http.ErrServerClosed: return nil
      default: return err
      }
  }
  \<close>
  The second argument is what \<^verbatim>\<open>r.server.Serve(ctx)\<close> returned.
\<close>

definition Runner_serve :: "Runner option \<Rightarrow> error option \<Rightarrow> error option" where
  "Runner_serve p err =
     (case p of
        None \<Rightarrow> Some (ErrorString ''bad state: nil receiver'')
      | Some r \<Rightarrow>
          if err = None then None
          else if escOK r \<and> err = Some ErrServerClosed then None
          else err)"

text \<open>
  \<^verbatim>\<open>
  func (r *Runner) close() {
      if r == nil || r.done == nil { ...; return }
      var closed bool
      r.once.Do(func() { close(r.done); r.logf("runner closed"); closed = true })
      if !closed { r.logf("runner *NOT* closed") }
  }
  \<close>
  Only this method closes \<^verbatim>\<open>r.done\<close>, inside the \<^verbatim>\<open>sync.Once\<close>.
\<close>

definition Runner_close :: "Runner \<Rightarrow> Runner" where
  "Runner_close r =
     (if doneC r = None then r
      else if once r then r
      else r\<lparr>doneC := Some Closed, once := True\<rparr>)"

section \<open>Runner.Run\<close>

text \<open>
  \<^verbatim>\<open>Run\<close> (server.go) starts two goroutines in an \<^verbatim>\<open>errgroup\<close> and waits for both:
  \<^verbatim>\<open>
  func (r *Runner) Run(ctx context.Context) error {
      eg, ctx := errgroup.WithContext(ctx)
      ctx, cancel := context.WithCancel(ctx)
      defer cancel()
      eg.Go(func() error {                       // goroutine 1
          defer r.close()
          r.logf("Waiting for signals: %v", r.signals)
          sig, err := r.waitForSignal(ctx)
          if err != nil { return err }
          r.logf("Received signal [%s]; ...", sig, r.period)
          ctx, cancel2 := context.WithTimeout(ctx, r.period)
          defer cancel2()
          err = r.server.Shutdown(ctx)
          switch err {
          case nil:
              r.logf("Completed lame-duck mode"); return nil
          case context.DeadlineExceeded:
              r.logf("Lame-duck period has expired")
              return &LameDuckError{Expired: true, Err: r.server.Close()}
          default:
              r.logf("error shutting down server: %v", err)
              cancel()
              return &LameDuckError{Err: err}
          }
      })
      eg.Go(func() error {                       // goroutine 2
          r.logf("Starting server")
          close(r.ready)
          if err := r.server.Serve(ctx); err != nil {
              r.logf("Server failed: %v", err); return err
          }
          r.logf("Stopping server")
          select {
          case <-ctx.Done(): r.logf("Context canceled wait for server shutdown")
          case <-r.done:     r.logf("Server stopped")
          }
          return nil
      })
      return eg.Wait()
  }
  \<close>
  and \<^verbatim>\<open>waitForSignal\<close> (signals.go):
  \<^verbatim>\<open>
  func (r *runner) waitForSignal(ctx context.Context) (os.Signal, error) {
      ch := make(chan os.Signal, 1)
      defer close(ch)
      sig.notify(ch, r.signals...)
      defer sig.stop(ch)
      select {
      case <-ctx.Done(): return nil, ctx.Err()
      case sig := <-ch:  return sig, nil
      }
  }
  \<close>

  The run is modelled as a transition system. Each goroutine has a program counter that
  names the point where it is; an event is one move of the environment (the caller
  cancels its context, the operating system delivers a signal, a method of the Server
  returns) or of the scheduler (a goroutine runs on; at a \<^verbatim>\<open>select\<close>, which ready
  case is taken). A run is a list of events, in the order in which they happen. Time is
  not modelled: what \<^verbatim>\<open>Shutdown\<close> returns, and when, is the environment's choice, as
  the code only looks at the returned value.

  The end of a goroutine is several moves, since the other goroutine can run in between.
  Goroutine 1 first fixes the value it returns (\<open>SigReturning\<close>: after the
  \<^verbatim>\<open>select\<close> took \<^verbatim>\<open><-ctx.Done()\<close>, or after \<^verbatim>\<open>Shutdown\<close> or \<^verbatim>\<open>Close\<close>
  returned), then runs its deferred calls, \<^verbatim>\<open>cancel2()\<close> and \<^verbatim>\<open>r.close()\<close>
  (\<open>SigClosed\<close>), and only then does the \<^verbatim>\<open>errgroup\<close> receive the value
  (\<open>SigDone\<close>). Goroutine 2 fixes its value when \<^verbatim>\<open>Serve\<close> returns an error or when
  its \<^verbatim>\<open>select\<close> takes a case (\<open>SrvReturning\<close>), logs, and only then does the
  \<^verbatim>\<open>errgroup\<close> receive the value (\<open>SrvDone\<close>).
\<close>

datatype sig_pc =
    SigInit                        \<comment> \<open>goroutine 1 has not run yet\<close>
  | SigSelect                      \<comment> \<open>in the \<^verbatim>\<open>select\<close> of \<^verbatim>\<open>waitForSignal\<close>, subscribed\<close>
  | SigShutdown                    \<comment> \<open>inside \<^verbatim>\<open>r.server.Shutdown(ctx)\<close>\<close>
  | SigClose                       \<comment> \<open>inside \<^verbatim>\<open>r.server.Close()\<close>\<close>
  | SigReturning "error option"    \<comment> \<open>at a \<^verbatim>\<open>return\<close> with this value, defers not yet run\<close>
  | SigClosed "error option"       \<comment> \<open>the deferred \<^verbatim>\<open>r.close()\<close> has run\<close>
  | SigDone "error option"         \<comment> \<open>the \<^verbatim>\<open>errgroup\<close> has received the value\<close>

datatype srv_pc =
    SrvInit                        \<comment> \<open>goroutine 2 has not run yet\<close>
  | SrvServe                       \<comment> \<open>inside \<^verbatim>\<open>r.server.Serve(ctx)\<close>\<close>
  | SrvWait                        \<comment> \<open>in its \<^verbatim>\<open>select\<close>\<close>
  | SrvReturning "error option"    \<comment> \<open>at a \<^verbatim>\<open>return\<close> with this value\<close>
  | SrvDone "error option"         \<comment> \<open>the \<^verbatim>\<open>errgroup\<close> has received the value\<close>

text \<open>The calls that leave the coordinator, in the order in which they are made.\<close>

datatype call = CallServe | CallShutdown | CallClose | CallHook

record run_state =
  rn :: Runner                    \<comment> \<open>the receiver \<^verbatim>\<open>r\<close>\<close>
  sigp :: sig_pc
  srvp :: srv_pc
  ch :: "Signal option"           \<comment> \<open>the buffer (capacity 1) of \<^verbatim>\<open>ch\<close>\<close>
  callerErr :: "error option"     \<comment> \<open>\<^verbatim>\<open>Err()\<close> of the caller's context\<close>
  ctxErr :: "error option"        \<comment> \<open>\<^verbatim>\<open>Err()\<close> of the context of both goroutines\<close>
  egErr :: "error option"         \<comment> \<open>the error the \<^verbatim>\<open>errgroup\<close> holds\<close>
  calls :: "call list"
  panicked :: bool

datatype event =
    CtxCancel error               \<comment> \<open>the caller's context is done, with this \<^verbatim>\<open>Err()\<close>\<close>
  | Deliver Signal                \<comment> \<open>the operating system delivers a signal\<close>
  | SigStart                      \<comment> \<open>goroutine 1 runs up to its \<^verbatim>\<open>select\<close>\<close>
  | SigCtxDone                    \<comment> \<open>its \<^verbatim>\<open>select\<close> takes \<^verbatim>\<open><-ctx.Done()\<close>\<close>
  | SigRecv                       \<comment> \<open>its \<^verbatim>\<open>select\<close> takes \<^verbatim>\<open><-ch\<close>; it calls \<^verbatim>\<open>Shutdown\<close>\<close>
  | ShutdownRet "error option"    \<comment> \<open>\<^verbatim>\<open>Shutdown\<close> returns\<close>
  | CloseRet "error option"       \<comment> \<open>\<^verbatim>\<open>Close\<close> returns\<close>
  | SigDefer                      \<comment> \<open>the deferred calls of goroutine 1 run\<close>
  | SigExit                       \<comment> \<open>the \<^verbatim>\<open>errgroup\<close> receives the value of goroutine 1\<close>
  | SrvStart                      \<comment> \<open>goroutine 2 closes \<^verbatim>\<open>r.ready\<close> and calls \<^verbatim>\<open>Serve\<close>\<close>
  | ServeRet "error option"       \<comment> \<open>\<^verbatim>\<open>Serve\<close> returns\<close>
  | SrvWake                       \<comment> \<open>the \<^verbatim>\<open>select\<close> of goroutine 2 takes a ready case\<close>
  | SrvExit                       \<comment> \<open>the \<^verbatim>\<open>errgroup\<close> receives the value of goroutine 2\<close>

text \<open>
  A context's \<^verbatim>\<open>Err()\<close> is set by the first cancellation that reaches it and never
  changes afterwards. The context of the goroutines is cancelled by \<^verbatim>\<open>cancel()\<close> and by
  the \<^verbatim>\<open>errgroup\<close> (both give \<^verbatim>\<open>context.Canceled\<close>), and when the caller's context is
  done (it inherits that context's \<^verbatim>\<open>Err()\<close>).
\<close>

definition cancel_ctx :: "error \<Rightarrow> run_state \<Rightarrow> run_state" where
  "cancel_ctx e s = (if ctxErr s = None then s\<lparr>ctxErr := Some e\<rparr> else s)"

text \<open>
  What \<^verbatim>\<open>errgroup.Group.Go\<close> does with the value \<^verbatim>\<open>f()\<close> returned; the
  \<^verbatim>\<open>sync.Once\<close> lets one goroutine in at a time, and the first error stays:
  \<^verbatim>\<open>
  if err := f(); err != nil {
      g.errOnce.Do(func() { g.err = err; if g.cancel != nil { g.cancel(g.err) } })
  }
  \<close>
\<close>

definition eg_return :: "error option \<Rightarrow> run_state \<Rightarrow> run_state" where
  "eg_return x s =
     (case x of
        None \<Rightarrow> s
      | Some e \<Rightarrow> if egErr s = None then cancel_ctx Canceled (s\<lparr>egErr := Some e\<rparr>) else s)"

text \<open>
  The events. \<open>None\<close> says that the event cannot happen in this state. A nil \<^verbatim>\<open>logf\<close>, a
  nil \<^verbatim>\<open>server\<close> and a \<^verbatim>\<open>ready\<close> channel that is nil or already closed make the
  goroutine panic, which ends the process.
\<close>

definition ctx_cancel :: "error \<Rightarrow> run_state \<Rightarrow> run_state option" where
  "ctx_cancel e s =
     (if callerErr s = None then Some (cancel_ctx e (s\<lparr>callerErr := Some e\<rparr>)) else None)"

text \<open>
  \<^verbatim>\<open>signal.Notify\<close> relays the signals of \<^verbatim>\<open>r.signals\<close> to \<^verbatim>\<open>ch\<close> while the
  subscription lasts, and does not block: a signal that finds the buffer full is dropped.
\<close>

definition deliver :: "Signal \<Rightarrow> run_state \<Rightarrow> run_state option" where
  "deliver sg s =
     Some (if sigp s = SigSelect \<and> sg \<in> set (signals (rn s)) \<and> ch s = None
           then s\<lparr>ch := Some sg\<rparr> else s)"

definition sig_start :: "run_state \<Rightarrow> run_state option" where
  "sig_start s =
     (if sigp s = SigInit
      then (if logf (rn s) = None then Some (s\<lparr>panicked := True\<rparr>)
            else Some (s\<lparr>sigp := SigSelect\<rparr>))
      else None)"

text \<open>
  The \<^verbatim>\<open>select\<close> takes \<^verbatim>\<open><-ctx.Done()\<close>: \<^verbatim>\<open>waitForSignal\<close> returns
  \<^verbatim>\<open>ctx.Err()\<close>, which goroutine 1 is about to return.
\<close>

definition sig_ctx_done :: "run_state \<Rightarrow> run_state option" where
  "sig_ctx_done s =
     (if sigp s = SigSelect
      then (case ctxErr s of
              None \<Rightarrow> None
            | Some e \<Rightarrow> Some (s\<lparr>sigp := SigReturning (Some e)\<rparr>))
      else None)"

definition sig_recv :: "run_state \<Rightarrow> run_state option" where
  "sig_recv s =
     (if sigp s = SigSelect
      then (case ch s of
              None \<Rightarrow> None
            | Some sg \<Rightarrow>
                if server (rn s) = None then Some (s\<lparr>panicked := True\<rparr>)
                else Some (s\<lparr>ch := None, sigp := SigShutdown,
                             calls := calls s @ [CallShutdown]\<rparr>))
      else None)"

text \<open>
  \<^verbatim>\<open>Shutdown\<close> returns, and goroutine 1 runs up to its next call or return: on nil to
  \<^verbatim>\<open>return nil\<close>, on \<^verbatim>\<open>context.DeadlineExceeded\<close> into \<^verbatim>\<open>r.server.Close()\<close>, on any
  other error through \<^verbatim>\<open>cancel()\<close> to the \<^verbatim>\<open>return\<close> of the \<^verbatim>\<open>*LameDuckError\<close>.
\<close>

definition shutdown_ret :: "error option \<Rightarrow> run_state \<Rightarrow> run_state option" where
  "shutdown_ret err s =
     (if sigp s = SigShutdown
      then (case err of
              None \<Rightarrow> Some (s\<lparr>sigp := SigReturning None\<rparr>)
            | Some e \<Rightarrow>
                if e = DeadlineExceeded
                then Some (s\<lparr>sigp := SigClose, calls := calls s @ [CallClose]\<rparr>)
                else Some ((cancel_ctx Canceled s)
                             \<lparr>sigp := SigReturning
                                (Some (LameDuck (Some (LameDuckError False (Some e)))))\<rparr>))
      else None)"

definition close_ret :: "error option \<Rightarrow> run_state \<Rightarrow> run_state option" where
  "close_ret err s =
     (if sigp s = SigClose
      then Some (s\<lparr>sigp := SigReturning (Some (LameDuck (Some (LameDuckError True err))))\<rparr>)
      else None)"

text \<open>
  The deferred calls of goroutine 1: \<^verbatim>\<open>cancel2()\<close>, which only cancels the context that
  \<^verbatim>\<open>Shutdown\<close> had, and \<^verbatim>\<open>r.close()\<close>. Then the \<^verbatim>\<open>errgroup\<close> receives the value.
\<close>

definition sig_defer :: "run_state \<Rightarrow> run_state option" where
  "sig_defer s =
     (case sigp s of
        SigReturning x \<Rightarrow> Some (s\<lparr>rn := Runner_close (rn s), sigp := SigClosed x\<rparr>)
      | _ \<Rightarrow> None)"

definition sig_exit :: "run_state \<Rightarrow> run_state option" where
  "sig_exit s =
     (case sigp s of
        SigClosed x \<Rightarrow> Some (eg_return x (s\<lparr>sigp := SigDone x\<rparr>))
      | _ \<Rightarrow> None)"

definition srv_start :: "run_state \<Rightarrow> run_state option" where
  "srv_start s =
     (if srvp s = SrvInit
      then (if logf (rn s) = None then Some (s\<lparr>panicked := True\<rparr>)
            else if ready (rn s) = Some Open
            then (if server (rn s) = None
                  then Some (s\<lparr>rn := (rn s)\<lparr>ready := Some Closed\<rparr>, panicked := True\<rparr>)
                  else Some (s\<lparr>rn := (rn s)\<lparr>ready := Some Closed\<rparr>, srvp := SrvServe,
                               calls := calls s @ [CallServe]\<rparr>))
            else Some (s\<lparr>panicked := True\<rparr>))
      else None)"

definition serve_ret :: "error option \<Rightarrow> run_state \<Rightarrow> run_state option" where
  "serve_ret err s =
     (if srvp s = SrvServe
      then (case err of
              Some e \<Rightarrow> Some (s\<lparr>srvp := SrvReturning (Some e)\<rparr>)
            | None \<Rightarrow> Some (s\<lparr>srvp := SrvWait\<rparr>))
      else None)"

definition srv_wake :: "run_state \<Rightarrow> run_state option" where
  "srv_wake s =
     (if srvp s = SrvWait
      then (if doneC (rn s) = Some Closed \<or> ctxErr s \<noteq> None
            then Some (s\<lparr>srvp := SrvReturning None\<rparr>) else None)
      else None)"

definition srv_exit :: "run_state \<Rightarrow> run_state option" where
  "srv_exit s =
     (case srvp s of
        SrvReturning x \<Rightarrow> Some (eg_return x (s\<lparr>srvp := SrvDone x\<rparr>))
      | _ \<Rightarrow> None)"

fun step :: "event \<Rightarrow> run_state \<Rightarrow> run_state option" where
  "step ev s =
     (if panicked s then None
      else
        (case ev of
           CtxCancel e \<Rightarrow> ctx_cancel e s
         | Deliver sg \<Rightarrow> deliver sg s
         | SigStart \<Rightarrow> sig_start s
         | SigCtxDone \<Rightarrow> sig_ctx_done s
         | SigRecv \<Rightarrow> sig_recv s
         | ShutdownRet err \<Rightarrow> shutdown_ret err s
         | CloseRet err \<Rightarrow> close_ret err s
         | SigDefer \<Rightarrow> sig_defer s
         | SigExit \<Rightarrow> sig_exit s
         | SrvStart \<Rightarrow> srv_start s
         | ServeRet err \<Rightarrow> serve_ret err s
         | SrvWake \<Rightarrow> srv_wake s
         | SrvExit \<Rightarrow> srv_exit s))"

fun exec :: "event list \<Rightarrow> run_state \<Rightarrow> run_state option" where
  "exec [] s = Some s"
| "exec (ev # evs) s = (case step ev s of None \<Rightarrow> None | Some s' \<Rightarrow> exec evs s')"

definition start :: "Runner \<Rightarrow> run_state" where
  "start r =
     \<lparr>rn = r, sigp = SigInit, srvp = SrvInit, ch = None, callerErr = None,
      ctxErr = None, egErr = None, calls = [], panicked = False\<rparr>"

text \<open>
  \<^verbatim>\<open>eg.Wait()\<close> returns once both goroutines have returned, with the error the group
  holds. \<open>Runner_Run r evs = Some (err, s)\<close> says that \<open>evs\<close> is a complete run of
  \<^verbatim>\<open>r.Run(ctx)\<close> which returns \<open>err\<close> and leaves the state \<open>s\<close>; it is \<open>None\<close> when
  \<open>evs\<close> is not a run, or one in which \<^verbatim>\<open>Run\<close> has not returned.
\<close>

definition Runner_Run :: "Runner \<Rightarrow> event list \<Rightarrow> (error option \<times> run_state) option" where
  "Runner_Run r evs =
     (case exec evs (start r) of
        None \<Rightarrow> None
      | Some s \<Rightarrow>
          (case (sigp s, srvp s) of
             (SigDone _, SrvDone _) \<Rightarrow> Some (egErr s, s)
           | _ \<Rightarrow> None))"

section \<open>Unwrapping, and the runs of the tests\<close>

text \<open>
  \<^verbatim>\<open>errors.Is(err, target)\<close> of the standard library, on the error values above: it
  follows the chain of \<^verbatim>\<open>Unwrap()\<close>. It is only used to say that an error wraps
  \<^verbatim>\<open>context.DeadlineExceeded\<close>; the program itself never calls it.
\<close>

fun errors_Is :: "error \<Rightarrow> error \<Rightarrow> bool" where
  "errors_Is (WrapError m e) target = (WrapError m e = target \<or> errors_Is e target)"
| "errors_Is (LameDuck (Some (LameDuckError x (Some e)))) target =
     (LameDuck (Some (LameDuckError x (Some e))) = target \<or> errors_Is e target)"
| "errors_Is err target = (err = target)"

text \<open>
  The coordinator that \<^verbatim>\<open>newRunner(svr, nil)\<close> builds for a server, the same with the
  option \<^verbatim>\<open>ErrServerClosedOK()\<close>, and with a pre-shutdown hook.
\<close>

definition test_runner :: Runner where
  "test_runner =
     \<lparr>server = Some 0, period = defaultPeriod, escOK = False,
      signals = defaultSignals, logf = Some log_Infof, psHook = None,
      state = NotStarted, ready = Some Open, doneC = Some Open, once = False\<rparr>"

definition escOK_runner :: Runner where
  "escOK_runner = test_runner\<lparr>escOK := True\<rparr>"

definition hook_runner :: Runner where
  "hook_runner = test_runner\<lparr>psHook := Some 7\<rparr>"

text \<open>
  The five cases of \<^verbatim>\<open>TestRun\<close> (server_test.go), as runs. The test server's
  \<^verbatim>\<open>Shutdown\<close> and \<^verbatim>\<open>Close\<close> make its \<^verbatim>\<open>Serve\<close> return nil; its \<^verbatim>\<open>Serve\<close>
  returns \<^verbatim>\<open>ctx.Err()\<close> when the context is cancelled.
  \<^verbatim>\<open>
  "normal":   mkCase(sendSignal(unix.SIGTERM), shutdownReturn(nil), lameDuckExpires),
  "expired":  mkCase(sendSignal(unix.SIGTERM), lameDuckExpires, shutdownReturn(nil),
                     wantError(&LameDuckError{Expired: true})),
  "canceled": mkCase(cancelContext, wantError(context.Canceled)),
  "nostart":  mkCase(serveReturn(errServeFailed), wantError(errServeFailed)),
  "badstop":  mkCase(sendSignal(unix.SIGTERM), shutdownReturn(errShutdownFailed),
                     lameDuckExpires, wantError(&LameDuckError{Err: errShutdownFailed})),
  \<close>
\<close>

definition errServeFailed :: error where
  "errServeFailed = ErrorString ''server failed to start''"

definition errShutdownFailed :: error where
  "errShutdownFailed = ErrorString ''server failed to shutdown''"

definition normal_run :: "event list" where
  "normal_run =
     [SigStart, SrvStart, Deliver SIGTERM, SigRecv, ServeRet None, ShutdownRet None,
      SigDefer, SigExit, SrvWake, SrvExit]"

definition expired_run :: "event list" where
  "expired_run =
     [SigStart, SrvStart, Deliver SIGTERM, SigRecv, ServeRet None,
      ShutdownRet (Some DeadlineExceeded), CloseRet None, SigDefer, SigExit,
      SrvWake, SrvExit]"

definition canceled_run :: "event list" where
  "canceled_run =
     [SigStart, SrvStart, CtxCancel Canceled, SigCtxDone, ServeRet (Some Canceled),
      SigDefer, SigExit, SrvExit]"

definition nostart_run :: "event list" where
  "nostart_run =
     [SigStart, SrvStart, ServeRet (Some errServeFailed), SrvExit,
      SigCtxDone, SigDefer, SigExit]"

definition badstop_run :: "event list" where
  "badstop_run =
     [SigStart, SrvStart, Deliver SIGTERM, SigRecv, ServeRet None,
      ShutdownRet (Some errShutdownFailed), SigDefer, SigExit, SrvWake, SrvExit]"

text \<open>
  Runs of other servers. A server whose \<^verbatim>\<open>Serve\<close> returns the error of its listener
  once \<^verbatim>\<open>Close\<close> has closed it. \<^verbatim>\<open>Serve\<close> returns after \<^verbatim>\<open>Close\<close> has returned, but
  goroutine 2 reaches the \<^verbatim>\<open>errgroup\<close> while goroutine 1 is still in its deferred calls.
\<close>

definition errAccept :: error where
  "errAccept = ErrorString ''accept tcp: use of closed network connection''"

definition close_race_run :: "event list" where
  "close_race_run =
     [SigStart, SrvStart, Deliver SIGTERM, SigRecv, ShutdownRet (Some DeadlineExceeded),
      CloseRet None, ServeRet (Some errAccept), SrvExit, SigDefer, SigExit]"

text \<open>
  An \<^verbatim>\<open>http.Server\<close> whose \<^verbatim>\<open>Serve\<close> is its \<^verbatim>\<open>ListenAndServe\<close>: that returns
  \<^verbatim>\<open>http.ErrServerClosed\<close> as soon as \<^verbatim>\<open>Shutdown\<close> is called. In the first run
  \<^verbatim>\<open>Shutdown\<close> then finds its context cancelled; in the second it completes.
\<close>

definition http_canceled_run :: "event list" where
  "http_canceled_run =
     [SigStart, SrvStart, Deliver SIGTERM, SigRecv, ServeRet (Some ErrServerClosed),
      SrvExit, ShutdownRet (Some Canceled), SigDefer, SigExit]"

definition http_clean_run :: "event list" where
  "http_clean_run =
     [SigStart, SrvStart, Deliver SIGTERM, SigRecv, ServeRet (Some ErrServerClosed),
      ShutdownRet None, SigDefer, SigExit, SrvExit]"

text \<open>
  A server whose \<^verbatim>\<open>Shutdown\<close> wraps the error of its context
  (\<^verbatim>\<open>fmt.Errorf("shutdown: %w", ctx.Err())\<close>), alone and with a \<^verbatim>\<open>Serve\<close> that fails
  meanwhile.
\<close>

definition errWrappedDeadline :: error where
  "errWrappedDeadline = WrapError ''shutdown: context deadline exceeded'' DeadlineExceeded"

definition wrapped_deadline_run :: "event list" where
  "wrapped_deadline_run =
     [SigStart, SrvStart, Deliver SIGINT, SigRecv, ServeRet None,
      ShutdownRet (Some errWrappedDeadline), SigDefer, SigExit, SrvWake, SrvExit]"

definition wrapped_deadline_race_run :: "event list" where
  "wrapped_deadline_race_run =
     [SigStart, SrvStart, Deliver SIGINT, SigRecv, ServeRet (Some errAccept), SrvExit,
      ShutdownRet (Some errWrappedDeadline), SigDefer, SigExit]"

text \<open>
  \<^verbatim>\<open>Serve\<close> fails before the caller cancels and before any signal, but goroutine 1 sees
  the cancellation and reaches the \<^verbatim>\<open>errgroup\<close> while goroutine 2 is still logging; and
  \<^verbatim>\<open>Serve\<close> fails, the group cancels the context, a signal arrives, and the
  \<^verbatim>\<open>select\<close> of goroutine 1, with both cases ready, takes the signal.
\<close>

definition fail_then_cancel_run :: "event list" where
  "fail_then_cancel_run =
     [SigStart, SrvStart, ServeRet (Some errServeFailed), CtxCancel Canceled, SigCtxDone,
      SigDefer, SigExit, SrvExit]"

definition fail_then_signal_run :: "event list" where
  "fail_then_signal_run =
     [SigStart, SrvStart, ServeRet (Some errServeFailed), SrvExit, Deliver SIGTERM, SigRecv,
      ShutdownRet (Some DeadlineExceeded), CloseRet None, SigDefer, SigExit]"

text \<open>
  The caller cancels, the \<^verbatim>\<open>select\<close> of goroutine 1 sees it, and \<^verbatim>\<open>Serve\<close> then
  answers with an error of its own that reaches the \<^verbatim>\<open>errgroup\<close> first; and the caller
  cancels, a signal arrives, and the \<^verbatim>\<open>select\<close> takes the signal.
\<close>

definition errServeCanceled :: error where
  "errServeCanceled = WrapError ''serve: context canceled'' Canceled"

definition cancel_serve_race_run :: "event list" where
  "cancel_serve_race_run =
     [SigStart, SrvStart, CtxCancel Canceled, SigCtxDone, ServeRet (Some errServeCanceled),
      SrvExit, SigDefer, SigExit]"

definition cancel_signal_race_run :: "event list" where
  "cancel_signal_race_run =
     [SigStart, SrvStart, CtxCancel Canceled, Deliver SIGTERM, SigRecv, ServeRet None,
      ShutdownRet None, SigDefer, SigExit, SrvWake, SrvExit]"

text \<open>The state a run leaves (the start state when the events are not a run).\<close>

definition run_of :: "Runner \<Rightarrow> event list \<Rightarrow> run_state" where
  "run_of r evs = (case exec evs (start r) of Some s \<Rightarrow> s | None \<Rightarrow> start r)"

text \<open>
  The period and the signals after a list of options: the value of the last option that
  sets the field, the given value when there is none.
\<close>

fun resolved_period :: "Option list \<Rightarrow> Duration \<Rightarrow> Duration" where
  "resolved_period [] d = d"
| "resolved_period (period_opt p # opts) d = resolved_period opts p"
| "resolved_period (opt # opts) d = resolved_period opts d"

fun resolved_signals :: "Option list \<Rightarrow> Signal list \<Rightarrow> Signal list" where
  "resolved_signals [] d = d"
| "resolved_signals (signals_opt s # opts) d = resolved_signals opts s"
| "resolved_signals (opt # opts) d = resolved_signals opts d"

section \<open>Invariants of a run\<close>

text \<open>
  What \<^verbatim>\<open>newRunner\<close> guarantees of the coordinator it returns, as far as \<^verbatim>\<open>Run\<close>
  depends on it.
\<close>

definition fresh :: "Runner \<Rightarrow> bool" where
  "fresh r \<longleftrightarrow> server r \<noteq> None \<and> logf r \<noteq> None \<and> ready r = Some Open \<and>
     doneC r = Some Open \<and> \<not> once r \<and> state r = NotStarted"

text \<open>
  The events of each goroutine. The program counter of a goroutine determines the events
  it has gone through: \<open>sig_hist\<close> and \<open>srv_hist\<close> list, for each program counter, the
  possible histories; \<open>sig_body\<close> and \<open>srv_body\<close> are the histories up to the
  \<^verbatim>\<open>return\<close>, with the value returned.
\<close>

fun is_sig_event :: "event \<Rightarrow> bool" where
  "is_sig_event SigStart = True"
| "is_sig_event SigCtxDone = True"
| "is_sig_event SigRecv = True"
| "is_sig_event (ShutdownRet x) = True"
| "is_sig_event (CloseRet x) = True"
| "is_sig_event SigDefer = True"
| "is_sig_event SigExit = True"
| "is_sig_event _ = False"

fun is_srv_event :: "event \<Rightarrow> bool" where
  "is_srv_event SrvStart = True"
| "is_srv_event (ServeRet x) = True"
| "is_srv_event SrvWake = True"
| "is_srv_event SrvExit = True"
| "is_srv_event _ = False"

definition sig_body :: "error option \<Rightarrow> event list \<Rightarrow> bool" where
  "sig_body x t \<longleftrightarrow>
     ((\<exists>e. t = [SigStart, SigCtxDone] \<and> x = Some e)
      \<or> (t = [SigStart, SigRecv, ShutdownRet None] \<and> x = None)
      \<or> (\<exists>c. t = [SigStart, SigRecv, ShutdownRet (Some DeadlineExceeded), CloseRet c]
             \<and> x = Some (LameDuck (Some (LameDuckError True c))))
      \<or> (\<exists>e. e \<noteq> DeadlineExceeded \<and> t = [SigStart, SigRecv, ShutdownRet (Some e)]
             \<and> x = Some (LameDuck (Some (LameDuckError False (Some e))))))"

fun sig_hist :: "sig_pc \<Rightarrow> event list \<Rightarrow> bool" where
  "sig_hist SigInit t = (t = [])"
| "sig_hist SigSelect t = (t = [SigStart])"
| "sig_hist SigShutdown t = (t = [SigStart, SigRecv])"
| "sig_hist SigClose t = (t = [SigStart, SigRecv, ShutdownRet (Some DeadlineExceeded)])"
| "sig_hist (SigReturning x) t = sig_body x t"
| "sig_hist (SigClosed x) t = (\<exists>b. t = b @ [SigDefer] \<and> sig_body x b)"
| "sig_hist (SigDone x) t = (\<exists>b. t = b @ [SigDefer, SigExit] \<and> sig_body x b)"

definition srv_body :: "error option \<Rightarrow> event list \<Rightarrow> bool" where
  "srv_body x t \<longleftrightarrow>
     ((\<exists>e. t = [SrvStart, ServeRet (Some e)] \<and> x = Some e)
      \<or> (t = [SrvStart, ServeRet None, SrvWake] \<and> x = None))"

fun srv_hist :: "srv_pc \<Rightarrow> event list \<Rightarrow> bool" where
  "srv_hist SrvInit t = (t = [])"
| "srv_hist SrvServe t = (t = [SrvStart])"
| "srv_hist SrvWait t = (t = [SrvStart, ServeRet None])"
| "srv_hist (SrvReturning x) t = srv_body x t"
| "srv_hist (SrvDone x) t = (\<exists>b. t = b @ [SrvExit] \<and> srv_body x b)"

fun call_of :: "event \<Rightarrow> call list" where
  "call_of SrvStart = [CallServe]"
| "call_of SigRecv = [CallShutdown]"
| "call_of (ShutdownRet x) = (if x = Some DeadlineExceeded then [CallClose] else [])"
| "call_of _ = []"

text \<open>
  Whether \<^verbatim>\<open>r.close()\<close> has run, and the value a goroutine has fixed for its
  \<^verbatim>\<open>return\<close>, if it has.
\<close>

fun sig_closed :: "sig_pc \<Rightarrow> bool" where
  "sig_closed (SigClosed x) = True"
| "sig_closed (SigDone x) = True"
| "sig_closed _ = False"

fun sig_val :: "sig_pc \<Rightarrow> error option option" where
  "sig_val (SigReturning x) = Some x"
| "sig_val (SigClosed x) = Some x"
| "sig_val (SigDone x) = Some x"
| "sig_val _ = None"

fun srv_val :: "srv_pc \<Rightarrow> error option option" where
  "srv_val (SrvReturning x) = Some x"
| "srv_val (SrvDone x) = Some x"
| "srv_val _ = None"

text \<open>\<^verbatim>\<open>Run\<close> changes three fields of the coordinator, and nothing else of it.\<close>

definition frame :: "Runner \<Rightarrow> run_state \<Rightarrow> bool" where
  "frame r s \<longleftrightarrow>
     \<not> panicked s
     \<and> rn s = r\<lparr>ready := (if srvp s = SrvInit then Some Open else Some Closed),
               doneC := (if sig_closed (sigp s) then Some Closed else Some Open),
               once := sig_closed (sigp s)\<rparr>"

text \<open>
  The group holds an error exactly when it has received one from a goroutine, and then
  the context is cancelled; while it holds none and goroutine 1 has not reached a
  \<^verbatim>\<open>return\<close>, a cancelled context was cancelled by the caller.
\<close>

definition sig_err :: "run_state \<Rightarrow> error option" where
  "sig_err s = (case sigp s of SigDone x \<Rightarrow> x | _ \<Rightarrow> None)"

definition srv_err :: "run_state \<Rightarrow> error option" where
  "srv_err s = (case srvp s of SrvDone x \<Rightarrow> x | _ \<Rightarrow> None)"

definition eg_ok :: "run_state \<Rightarrow> bool" where
  "eg_ok s \<longleftrightarrow>
     (egErr s = None \<longleftrightarrow> sig_err s = None \<and> srv_err s = None)
     \<and> (egErr s = sig_err s \<or> egErr s = srv_err s)
     \<and> (egErr s \<noteq> None \<longrightarrow> ctxErr s \<noteq> None)"

definition ctx_origin :: "event list \<Rightarrow> run_state \<Rightarrow> bool" where
  "ctx_origin evs s \<longleftrightarrow>
     (\<forall>e. ctxErr s = Some e \<and> egErr s = None \<and> sig_val (sigp s) = None
          \<longrightarrow> CtxCancel e \<in> set evs)"

definition reach_inv :: "Runner \<Rightarrow> event list \<Rightarrow> run_state \<Rightarrow> bool" where
  "reach_inv r evs s \<longleftrightarrow>
     frame r s
     \<and> sig_hist (sigp s) (filter is_sig_event evs)
     \<and> srv_hist (srvp s) (filter is_srv_event evs)
     \<and> calls s = concat (map call_of evs)
     \<and> eg_ok s
     \<and> ctx_origin evs s"

section \<open>Lemmas\<close>

subsection \<open>Executions\<close>

lemma exec_append:
  "exec (xs @ ys) s = (case exec xs s of None \<Rightarrow> None | Some s' \<Rightarrow> exec ys s')"
  by (induction xs arbitrary: s) (auto split: option.splits)

lemma exec_snoc:
  "exec (xs @ [x]) s = Some t \<longleftrightarrow> (\<exists>s'. exec xs s = Some s' \<and> step x s' = Some t)"
  by (auto simp: exec_append split: option.splits)


lemma exec_split:
  "exec (pre @ ev # post) s0 = Some s \<Longrightarrow>
     \<exists>s1 s2. exec pre s0 = Some s1 \<and> step ev s1 = Some s2 \<and> exec post s2 = Some s"
  by (auto simp: exec_append simp del: step.simps split: option.splits)


lemma Runner_RunD:
  assumes "Runner_Run r evs = Some (res, s)"
  shows "exec evs (start r) = Some s" "res = egErr s" "\<exists>x. sigp s = SigDone x"
    "\<exists>y. srvp s = SrvDone y"
  using assms
  by (auto simp: Runner_Run_def split: option.splits sig_pc.splits srv_pc.splits)

subsection \<open>The fields of a state after a cancellation or a hand-over\<close>

lemma cancel_ctx_simps:
  "rn (cancel_ctx e s) = rn s" "sigp (cancel_ctx e s) = sigp s"
  "srvp (cancel_ctx e s) = srvp s" "ch (cancel_ctx e s) = ch s"
  "callerErr (cancel_ctx e s) = callerErr s" "egErr (cancel_ctx e s) = egErr s"
  "calls (cancel_ctx e s) = calls s" "panicked (cancel_ctx e s) = panicked s"
  "ctxErr (cancel_ctx e s) = (if ctxErr s = None then Some e else ctxErr s)"
  by (simp_all add: cancel_ctx_def)

lemma eg_return_simps:
  "rn (eg_return x s) = rn s" "sigp (eg_return x s) = sigp s"
  "srvp (eg_return x s) = srvp s" "ch (eg_return x s) = ch s"
  "callerErr (eg_return x s) = callerErr s"
  "calls (eg_return x s) = calls s" "panicked (eg_return x s) = panicked s"
  "egErr (eg_return x s) = (if egErr s = None then x else egErr s)"
  "ctxErr (eg_return x s) =
     (if x \<noteq> None \<and> egErr s = None \<and> ctxErr s = None then Some Canceled else ctxErr s)"
  by (auto simp: eg_return_def cancel_ctx_def split: option.splits)

lemmas ret_simps = cancel_ctx_simps eg_return_simps

subsection \<open>The steps of a run of a coordinator that newRunner built\<close>

lemma frame_start: "fresh r \<Longrightarrow> frame r (start r)"
  by (simp add: frame_def start_def fresh_def)

lemma frame_fields:
  assumes "frame r s" "fresh r"
  shows "\<not> panicked s" "signals (rn s) = signals r" "server (rn s) \<noteq> None"
    "logf (rn s) \<noteq> None" "state (rn s) = state r" "psHook (rn s) = psHook r"
    "escOK (rn s) = escOK r" "period (rn s) = period r"
    "srvp s = SrvInit \<Longrightarrow> ready (rn s) = Some Open"
    "doneC (rn s) = (if sig_closed (sigp s) then Some Closed else Some Open)"
proof -
  from assms(1) have np: "\<not> panicked s"
    and eq: "rn s = r\<lparr>ready := (if srvp s = SrvInit then Some Open else Some Closed),
               doneC := (if sig_closed (sigp s) then Some Closed else Some Open),
               once := sig_closed (sigp s)\<rparr>"
    by (simp_all add: frame_def)
  show "\<not> panicked s" by (rule np)
  show "signals (rn s) = signals r" by (subst eq) simp
  show "server (rn s) \<noteq> None" using assms(2) by (subst eq) (simp add: fresh_def)
  show "logf (rn s) \<noteq> None" using assms(2) by (subst eq) (simp add: fresh_def)
  show "state (rn s) = state r" by (subst eq) simp
  show "psHook (rn s) = psHook r" by (subst eq) simp
  show "escOK (rn s) = escOK r" by (subst eq) simp
  show "period (rn s) = period r" by (subst eq) simp
  show "srvp s = SrvInit \<Longrightarrow> ready (rn s) = Some Open" by (subst eq) simp
  show "doneC (rn s) = (if sig_closed (sigp s) then Some Closed else Some Open)"
    by (subst eq) simp
qed

text \<open>The steps that a state without a panic can take, one case for each.\<close>

lemma step_cases [consumes 1, case_names CtxCancel Deliver Dropped SigStart SigCtxDone SigRecv
    ShutdownNil ShutdownDeadline ShutdownOther CloseRet SigDefer SigExit SrvStart ServeErr
    ServeNil SrvWake SrvExit]:
  assumes "step ev s = Some s'" and "frame r s" and "fresh r"
  obtains
    e where "ev = CtxCancel e" "callerErr s = None"
      "s' = cancel_ctx e (s\<lparr>callerErr := Some e\<rparr>)"
  | sg where "ev = Deliver sg" "sigp s = SigSelect" "sg \<in> set (signals r)" "ch s = None"
      "s' = s\<lparr>ch := Some sg\<rparr>"
  | sg where "ev = Deliver sg" "s' = s"
  | "ev = SigStart" "sigp s = SigInit" "s' = s\<lparr>sigp := SigSelect\<rparr>"
  | e where "ev = SigCtxDone" "sigp s = SigSelect" "ctxErr s = Some e"
      "s' = s\<lparr>sigp := SigReturning (Some e)\<rparr>"
  | sg where "ev = SigRecv" "sigp s = SigSelect" "ch s = Some sg"
      "s' = s\<lparr>ch := None, sigp := SigShutdown, calls := calls s @ [CallShutdown]\<rparr>"
  | "ev = ShutdownRet None" "sigp s = SigShutdown" "s' = s\<lparr>sigp := SigReturning None\<rparr>"
  | "ev = ShutdownRet (Some DeadlineExceeded)" "sigp s = SigShutdown"
      "s' = s\<lparr>sigp := SigClose, calls := calls s @ [CallClose]\<rparr>"
  | e where "ev = ShutdownRet (Some e)" "e \<noteq> DeadlineExceeded" "sigp s = SigShutdown"
      "s' = (cancel_ctx Canceled s)
              \<lparr>sigp := SigReturning (Some (LameDuck (Some (LameDuckError False (Some e)))))\<rparr>"
  | c where "ev = CloseRet c" "sigp s = SigClose"
      "s' = s\<lparr>sigp := SigReturning (Some (LameDuck (Some (LameDuckError True c))))\<rparr>"
  | x where "ev = SigDefer" "sigp s = SigReturning x"
      "s' = s\<lparr>rn := Runner_close (rn s), sigp := SigClosed x\<rparr>"
  | x where "ev = SigExit" "sigp s = SigClosed x"
      "s' = eg_return x (s\<lparr>sigp := SigDone x\<rparr>)"
  | "ev = SrvStart" "srvp s = SrvInit"
      "s' = s\<lparr>rn := (rn s)\<lparr>ready := Some Closed\<rparr>, srvp := SrvServe,
               calls := calls s @ [CallServe]\<rparr>"
  | e where "ev = ServeRet (Some e)" "srvp s = SrvServe"
      "s' = s\<lparr>srvp := SrvReturning (Some e)\<rparr>"
  | "ev = ServeRet None" "srvp s = SrvServe" "s' = s\<lparr>srvp := SrvWait\<rparr>"
  | "ev = SrvWake" "srvp s = SrvWait" "doneC (rn s) = Some Closed \<or> ctxErr s \<noteq> None"
      "s' = s\<lparr>srvp := SrvReturning None\<rparr>"
  | x where "ev = SrvExit" "srvp s = SrvReturning x"
      "s' = eg_return x (s\<lparr>srvp := SrvDone x\<rparr>)"
proof -
  note ff = frame_fields [OF assms(2,3)]
  from assms(1) ff(1) have st: "(case ev of
           CtxCancel e \<Rightarrow> ctx_cancel e s
         | Deliver sg \<Rightarrow> deliver sg s
         | SigStart \<Rightarrow> sig_start s
         | SigCtxDone \<Rightarrow> sig_ctx_done s
         | SigRecv \<Rightarrow> sig_recv s
         | ShutdownRet err \<Rightarrow> shutdown_ret err s
         | CloseRet err \<Rightarrow> close_ret err s
         | SigDefer \<Rightarrow> sig_defer s
         | SigExit \<Rightarrow> sig_exit s
         | SrvStart \<Rightarrow> srv_start s
         | ServeRet err \<Rightarrow> serve_ret err s
         | SrvWake \<Rightarrow> srv_wake s
         | SrvExit \<Rightarrow> srv_exit s) = Some s'"
    by simp
  show ?thesis
  proof (cases ev)
    case (CtxCancel e)
    with st have "ctx_cancel e s = Some s'" by simp
    then have "callerErr s = None" "s' = cancel_ctx e (s\<lparr>callerErr := Some e\<rparr>)"
      by (simp_all add: ctx_cancel_def split: if_splits)
    with CtxCancel that(1) show ?thesis by blast
  next
    case (Deliver sg)
    with st have d: "deliver sg s = Some s'" by simp
    show ?thesis
    proof (cases "sigp s = SigSelect \<and> sg \<in> set (signals (rn s)) \<and> ch s = None")
      case True
      with d have "s' = s\<lparr>ch := Some sg\<rparr>" by (simp add: deliver_def)
      with True Deliver ff(2) that(2) show ?thesis by simp
    next
      case False
      with d have "s' = s" by (simp add: deliver_def)
      with Deliver that(3) show ?thesis by blast
    qed
  next
    case SigStart
    with st have "sig_start s = Some s'" by simp
    with ff(4) have "sigp s = SigInit" "s' = s\<lparr>sigp := SigSelect\<rparr>"
      by (simp_all add: sig_start_def split: if_splits)
    with SigStart that(4) show ?thesis by blast
  next
    case SigCtxDone
    with st have "sig_ctx_done s = Some s'" by simp
    then obtain e where "sigp s = SigSelect" "ctxErr s = Some e"
      "s' = s\<lparr>sigp := SigReturning (Some e)\<rparr>"
      by (auto simp: sig_ctx_done_def split: if_splits option.splits)
    with SigCtxDone that(5) show ?thesis by blast
  next
    case SigRecv
    with st have "sig_recv s = Some s'" by simp
    with ff(3) obtain sg where "sigp s = SigSelect" "ch s = Some sg"
      "s' = s\<lparr>ch := None, sigp := SigShutdown, calls := calls s @ [CallShutdown]\<rparr>"
      by (auto simp: sig_recv_def split: if_splits option.splits)
    with SigRecv that(6) show ?thesis by blast
  next
    case (ShutdownRet x)
    with st have sr: "shutdown_ret x s = Some s'" by simp
    then have pc: "sigp s = SigShutdown" by (simp add: shutdown_ret_def split: if_splits)
    show ?thesis
    proof (cases x)
      case None
      with sr pc have "s' = s\<lparr>sigp := SigReturning None\<rparr>" by (simp add: shutdown_ret_def)
      with None ShutdownRet pc that(7) show ?thesis by blast
    next
      case (Some e)
      show ?thesis
      proof (cases "e = DeadlineExceeded")
        case True
        with sr pc Some have "s' = s\<lparr>sigp := SigClose, calls := calls s @ [CallClose]\<rparr>"
          by (simp add: shutdown_ret_def)
        with True Some ShutdownRet pc that(8) show ?thesis by blast
      next
        case False
        with sr pc Some have
          "s' = (cancel_ctx Canceled s)
              \<lparr>sigp := SigReturning (Some (LameDuck (Some (LameDuckError False (Some e)))))\<rparr>"
          by (simp add: shutdown_ret_def)
        with False Some ShutdownRet pc that(9) show ?thesis by blast
      qed
    qed
  next
    case (CloseRet c)
    with st have "close_ret c s = Some s'" by simp
    then have "sigp s = SigClose"
      "s' = s\<lparr>sigp := SigReturning (Some (LameDuck (Some (LameDuckError True c))))\<rparr>"
      by (simp_all add: close_ret_def split: if_splits)
    with CloseRet that(10) show ?thesis by blast
  next
    case SigDefer
    with st have "sig_defer s = Some s'" by simp
    then obtain x where "sigp s = SigReturning x"
      "s' = s\<lparr>rn := Runner_close (rn s), sigp := SigClosed x\<rparr>"
      by (auto simp: sig_defer_def split: sig_pc.splits)
    with SigDefer that(11) show ?thesis by blast
  next
    case SigExit
    with st have "sig_exit s = Some s'" by simp
    then obtain x where "sigp s = SigClosed x" "s' = eg_return x (s\<lparr>sigp := SigDone x\<rparr>)"
      by (auto simp: sig_exit_def split: sig_pc.splits)
    with SigExit that(12) show ?thesis by blast
  next
    case SrvStart
    with st have ss: "srv_start s = Some s'" by simp
    then have pc: "srvp s = SrvInit" by (simp add: srv_start_def split: if_splits)
    with ss ff(3,4) ff(9) have
      "s' = s\<lparr>rn := (rn s)\<lparr>ready := Some Closed\<rparr>, srvp := SrvServe,
               calls := calls s @ [CallServe]\<rparr>"
      by (simp add: srv_start_def)
    with SrvStart pc that(13) show ?thesis by blast
  next
    case (ServeRet x)
    with st have sr: "serve_ret x s = Some s'" by simp
    then have pc: "srvp s = SrvServe" by (simp add: serve_ret_def split: if_splits)
    show ?thesis
    proof (cases x)
      case None
      with sr pc have "s' = s\<lparr>srvp := SrvWait\<rparr>" by (simp add: serve_ret_def)
      with None ServeRet pc that(15) show ?thesis by blast
    next
      case (Some e)
      with sr pc have "s' = s\<lparr>srvp := SrvReturning (Some e)\<rparr>" by (simp add: serve_ret_def)
      with Some ServeRet pc that(14) show ?thesis by blast
    qed
  next
    case SrvWake
    with st have "srv_wake s = Some s'" by simp
    then have "srvp s = SrvWait" "doneC (rn s) = Some Closed \<or> ctxErr s \<noteq> None"
      "s' = s\<lparr>srvp := SrvReturning None\<rparr>"
      by (simp_all add: srv_wake_def split: if_splits)
    with SrvWake that(16) show ?thesis by blast
  next
    case SrvExit
    with st have "srv_exit s = Some s'" by simp
    then obtain x where "srvp s = SrvReturning x" "s' = eg_return x (s\<lparr>srvp := SrvDone x\<rparr>)"
      by (auto simp: srv_exit_def split: srv_pc.splits)
    with SrvExit that(17) show ?thesis by blast
  qed
qed

lemma frame_step:
  assumes "step ev s = Some s'" "frame r s" "fresh r"
  shows "frame r s'"
  using assms
  by (cases rule: step_cases)
     (simp_all add: frame_def fresh_def ret_simps Runner_close_def)

lemma sig_step:
  assumes "step ev s = Some s'" "frame r s" "fresh r"
    and "sig_hist (sigp s) (filter is_sig_event evs)"
  shows "sig_hist (sigp s') (filter is_sig_event (evs @ [ev]))"
  using assms(1-3)
  by (cases rule: step_cases) (use assms(4) in \<open>simp_all add: ret_simps sig_body_def\<close>)

lemma srv_step:
  assumes "step ev s = Some s'" "frame r s" "fresh r"
    and "srv_hist (srvp s) (filter is_srv_event evs)"
  shows "srv_hist (srvp s') (filter is_srv_event (evs @ [ev]))"
  using assms(1-3)
  by (cases rule: step_cases) (use assms(4) in \<open>simp_all add: ret_simps srv_body_def\<close>)

lemma calls_step:
  assumes "step ev s = Some s'" "frame r s" "fresh r"
    and "calls s = concat (map call_of evs)"
  shows "calls s' = concat (map call_of (evs @ [ev]))"
  using assms(1-3)
  by (cases rule: step_cases) (use assms(4) in \<open>simp_all add: ret_simps\<close>)

lemma eg_step:
  assumes "step ev s = Some s'" "frame r s" "fresh r" and "eg_ok s"
  shows "eg_ok s'"
  using assms(1-3)
  by (cases rule: step_cases)
     (use assms(4) in \<open>auto simp: ret_simps eg_ok_def sig_err_def srv_err_def\<close>)

lemma ctx_origin_step:
  assumes "step ev s = Some s'" "frame r s" "fresh r" and "ctx_origin evs s"
  shows "ctx_origin (evs @ [ev]) s'"
  using assms(1-3)
  by (cases rule: step_cases)
     (use assms(4) in \<open>auto simp: ret_simps ctx_origin_def split: if_splits\<close>)

text \<open>What stays: the error the group holds, and the value a goroutine has fixed.\<close>

lemma egErr_step_stable:
  assumes "step ev s = Some s'" "frame r s" "fresh r" and "egErr s = Some e"
  shows "egErr s' = Some e"
  using assms(1-3)
  by (cases rule: step_cases) (use assms(4) in \<open>simp_all add: ret_simps\<close>)

lemma sig_val_step_stable:
  assumes "step ev s = Some s'" "frame r s" "fresh r" and "sig_val (sigp s) = Some v"
  shows "sig_val (sigp s') = Some v"
  using assms(1-3)
  by (cases rule: step_cases) (use assms(4) in \<open>simp_all add: ret_simps\<close>)

lemma srv_val_step_stable:
  assumes "step ev s = Some s'" "frame r s" "fresh r" and "srv_val (srvp s) = Some v"
  shows "srv_val (srvp s') = Some v"
  using assms(1-3)
  by (cases rule: step_cases) (use assms(4) in \<open>simp_all add: ret_simps\<close>)

lemma exec_stable:
  assumes st: "\<And>ev s s'. step ev s = Some s' \<Longrightarrow> frame r s \<Longrightarrow> P s \<Longrightarrow> P s'"
    and fr: "fresh r"
  shows "exec evs s = Some s' \<Longrightarrow> frame r s \<Longrightarrow> P s \<Longrightarrow> P s'"
proof (induction evs arbitrary: s)
  case Nil
  then show ?case by simp
next
  case (Cons ev evs)
  from Cons.prems(1) obtain t where t: "step ev s = Some t" "exec evs t = Some s'"
    by (auto simp del: step.simps split: option.splits)
  from t(1) Cons.prems(2) fr have "frame r t" by (rule frame_step)
  moreover from t(1) Cons.prems(2,3) have "P t" by (rule st)
  ultimately show ?case using Cons.IH t(2) by blast
qed

lemma reach:
  assumes "fresh r"
  shows "exec evs (start r) = Some s \<Longrightarrow> reach_inv r evs s"
proof (induction evs arbitrary: s rule: rev_induct)
  case Nil
  then have "s = start r" by simp
  with assms show ?case
    by (simp add: reach_inv_def frame_start)
       (simp add: start_def eg_ok_def sig_err_def srv_err_def ctx_origin_def)
next
  case (snoc ev evs)
  from snoc.prems obtain t where t: "exec evs (start r) = Some t" "step ev t = Some s"
    by (auto simp: exec_snoc simp del: step.simps)
  from snoc.IH [OF t(1)] have inv: "reach_inv r evs t" .
  then have f: "frame r t" by (simp add: reach_inv_def)
  from inv show ?case
    unfolding reach_inv_def
    using frame_step [OF t(2) f assms] sig_step [OF t(2) f assms]
      srv_step [OF t(2) f assms] calls_step [OF t(2) f assms]
      eg_step [OF t(2) f assms] ctx_origin_step [OF t(2) f assms]
    by blast
qed

lemma reach_frame: "fresh r \<Longrightarrow> exec evs (start r) = Some s \<Longrightarrow> frame r s"
  using reach by (simp add: reach_inv_def)

text \<open>From a state of a run on, in the rest of the run.\<close>

lemma egErr_kept:
  assumes "fresh r" "exec pre (start r) = Some t" "exec post t = Some s" "egErr t = Some e"
  shows "egErr s = Some e"
proof (rule exec_stable [where P = "\<lambda>s. egErr s = Some e" and r = r,
      OF _ assms(1,3) reach_frame [OF assms(1,2)] assms(4)])
  fix ev s s'
  assume "step ev s = Some s'" "frame r s" "egErr s = Some e"
  then show "egErr s' = Some e" using assms(1) egErr_step_stable by blast
qed

lemma sig_val_kept:
  assumes "fresh r" "exec pre (start r) = Some t" "exec post t = Some s"
    "sig_val (sigp t) = Some v"
  shows "sig_val (sigp s) = Some v"
proof (rule exec_stable [where P = "\<lambda>s. sig_val (sigp s) = Some v" and r = r,
      OF _ assms(1,3) reach_frame [OF assms(1,2)] assms(4)])
  fix ev s s'
  assume "step ev s = Some s'" "frame r s" "sig_val (sigp s) = Some v"
  then show "sig_val (sigp s') = Some v" using assms(1) sig_val_step_stable by blast
qed

lemma srv_val_kept:
  assumes "fresh r" "exec pre (start r) = Some t" "exec post t = Some s"
    "srv_val (srvp t) = Some v"
  shows "srv_val (srvp s) = Some v"
proof (rule exec_stable [where P = "\<lambda>s. srv_val (srvp s) = Some v" and r = r,
      OF _ assms(1,3) reach_frame [OF assms(1,2)] assms(4)])
  fix ev s s'
  assume "step ev s = Some s'" "frame r s" "srv_val (srvp s) = Some v"
  then show "srv_val (srvp s') = Some v" using assms(1) srv_val_step_stable by blast
qed

subsection \<open>Histories\<close>

lemma sig_hist_done_deadline:
  assumes "sig_hist (SigDone x) t" "ShutdownRet (Some DeadlineExceeded) \<in> set t"
  shows "\<exists>c. t = [SigStart, SigRecv, ShutdownRet (Some DeadlineExceeded), CloseRet c,
                  SigDefer, SigExit]
         \<and> x = Some (LameDuck (Some (LameDuckError True c)))"
  using assms by (auto simp: sig_body_def)

lemma sig_hist_done_other:
  assumes "sig_hist (SigDone x) t" "ShutdownRet (Some e) \<in> set t" "e \<noteq> DeadlineExceeded"
  shows "x = Some (LameDuck (Some (LameDuckError False (Some e))))"
  using assms by (auto simp: sig_body_def)

lemma sig_hist_ShutdownRet_unique:
  assumes "sig_hist p t" "ShutdownRet a \<in> set t" "ShutdownRet b \<in> set t"
  shows "a = b"
  using assms by (cases p) (auto simp: sig_body_def)

lemma sig_hist_exit:
  assumes "sig_hist p t" "SigExit \<notin> set t"
  shows "\<forall>x. p \<noteq> SigDone x"
  using assms by (cases p) auto

lemma srv_hist_exit:
  assumes "srv_hist p t" "SrvExit \<notin> set t"
  shows "\<forall>x. p \<noteq> SrvDone x"
  using assms by (cases p) auto

lemma srv_hist_val:
  assumes "srv_hist p t" "ServeRet (Some e) \<in> set t"
  shows "srv_val p = Some (Some e)"
  using assms by (cases p) (auto simp: srv_body_def)

lemma srv_hist_nil:
  assumes "srv_hist (SrvDone y) t" "\<forall>e. ServeRet (Some e) \<notin> set t"
  shows "y = None"
  using assms by (auto simp: srv_body_def)

lemma srv_hist_done_error:
  assumes "srv_hist (SrvDone (Some a)) t"
  shows "ServeRet (Some a) \<in> set t \<and> SrvExit \<in> set t"
  using assms by (auto simp: srv_body_def)

text \<open>The same, for the events of a run.\<close>

lemma sig_done_deadline:
  assumes "sig_hist (SigDone x) (filter is_sig_event evs)"
    "ShutdownRet (Some DeadlineExceeded) \<in> set evs"
  shows "\<exists>c. filter is_sig_event evs =
           [SigStart, SigRecv, ShutdownRet (Some DeadlineExceeded), CloseRet c,
            SigDefer, SigExit]
         \<and> x = Some (LameDuck (Some (LameDuckError True c)))"
proof -
  obtain t where t: "t = filter is_sig_event evs" by simp
  with assms(2) have "ShutdownRet (Some DeadlineExceeded) \<in> set t" by simp
  moreover from assms(1) t have "sig_hist (SigDone x) t" by simp
  ultimately show ?thesis unfolding t by (rule sig_hist_done_deadline [rotated])
qed

lemma sig_done_other:
  assumes "sig_hist (SigDone x) (filter is_sig_event evs)"
    "ShutdownRet (Some e) \<in> set evs" "e \<noteq> DeadlineExceeded"
  shows "x = Some (LameDuck (Some (LameDuckError False (Some e))))"
proof -
  obtain t where t: "t = filter is_sig_event evs" by simp
  with assms(2) have m: "ShutdownRet (Some e) \<in> set t" by simp
  from assms(1) t have "sig_hist (SigDone x) t" by simp
  then show ?thesis using m assms(3) by (rule sig_hist_done_other)
qed

lemma ShutdownRet_unique:
  assumes "sig_hist p (filter is_sig_event evs)"
    "ShutdownRet a \<in> set evs" "ShutdownRet b \<in> set evs"
  shows "a = b"
proof -
  obtain t where t: "t = filter is_sig_event evs" by simp
  with assms(2,3) have "ShutdownRet a \<in> set t" "ShutdownRet b \<in> set t" by simp_all
  moreover from assms(1) t have "sig_hist p t" by simp
  ultimately show ?thesis by (rule sig_hist_ShutdownRet_unique [rotated])
qed

lemma sig_err_None:
  assumes "sig_hist (sigp s) (filter is_sig_event evs)" "SigExit \<notin> set evs"
  shows "sig_err s = None"
proof -
  from assms(2) have "SigExit \<notin> set (filter is_sig_event evs)" by simp
  with assms(1) have "\<forall>x. sigp s \<noteq> SigDone x" by (rule sig_hist_exit)
  then show ?thesis by (cases "sigp s") (simp_all add: sig_err_def)
qed

lemma srv_err_None:
  assumes "srv_hist (srvp s) (filter is_srv_event evs)"
    "\<forall>x. ServeRet (Some x) \<in> set evs \<longrightarrow> SrvExit \<notin> set evs"
  shows "srv_err s = None"
proof (cases "srv_err s")
  case (Some a)
  then have "srvp s = SrvDone (Some a)"
    by (cases "srvp s") (simp_all add: srv_err_def)
  with assms(1) have "srv_hist (SrvDone (Some a)) (filter is_srv_event evs)" by simp
  then have "ServeRet (Some a) \<in> set (filter is_srv_event evs)
      \<and> SrvExit \<in> set (filter is_srv_event evs)"
    by (rule srv_hist_done_error)
  with assms(2) show ?thesis by simp
qed simp

lemma srv_done_val:
  assumes "srv_hist (srvp s) (filter is_srv_event evs)" "ServeRet (Some e) \<in> set evs"
  shows "srv_val (srvp s) = Some (Some e)"
proof -
  obtain t where t: "t = filter is_srv_event evs" by simp
  with assms(2) have "ServeRet (Some e) \<in> set t" by simp
  moreover from assms(1) t have "srv_hist (srvp s) t" by simp
  ultimately show ?thesis by (rule srv_hist_val [rotated])
qed

lemma srv_done_nil:
  assumes "srv_hist (SrvDone y) (filter is_srv_event evs)" "\<forall>e. ServeRet (Some e) \<notin> set evs"
  shows "y = None"
proof -
  from assms(2) have "\<forall>e. ServeRet (Some e) \<notin> set (filter is_srv_event evs)" by simp
  with assms(1) show ?thesis by (rule srv_hist_nil)
qed

lemma CallClose_calls:
  "CallClose \<in> set (concat (map call_of evs)) \<longleftrightarrow> ShutdownRet (Some DeadlineExceeded) \<in> set evs"
proof (induction evs)
  case Nil
  show ?case by simp
next
  case (Cons ev evs)
  then show ?case by (cases ev) auto
qed

lemma CallShutdown_calls:
  "CallShutdown \<in> set (concat (map call_of evs)) \<longleftrightarrow> SigRecv \<in> set evs"
proof (induction evs)
  case Nil
  show ?case by simp
next
  case (Cons ev evs)
  then show ?case by (cases ev) auto
qed

lemma CallHook_calls: "CallHook \<notin> set (concat (map call_of evs))"
proof (induction evs)
  case Nil
  show ?case by simp
next
  case (Cons ev evs)
  then show ?case by (cases ev) auto
qed

lemma count_CallClose:
  "count_list (concat (map call_of evs)) CallClose =
     count_list evs (ShutdownRet (Some DeadlineExceeded))"
proof (induction evs)
  case Nil
  show ?case by simp
next
  case (Cons ev evs)
  then show ?case by (cases ev) auto
qed

lemma count_list_filter_eq: "P x \<Longrightarrow> count_list (filter P xs) x = count_list xs x"
  by (induction xs) auto



subsection \<open>Which error the group keeps\<close>

text \<open>
  The value of the goroutine that reaches the \<^verbatim>\<open>errgroup\<close> first, if it is an error, is
  what \<^verbatim>\<open>Run\<close> returns.
\<close>

lemma first_sig:
  assumes fr: "fresh r" and ex: "exec (pre @ SigExit # post) (start r) = Some s"
    and n: "SrvExit \<notin> set pre" and d: "sigp s = SigDone (Some a)"
  shows "egErr s = Some a"
proof -
  from ex obtain s1 s2 where 1: "exec pre (start r) = Some s1"
    and 2: "step SigExit s1 = Some s2" and 3: "exec post s2 = Some s"
    using exec_split by blast
  from reach [OF fr 1] have f1: "frame r s1"
    and sh: "srv_hist (srvp s1) (filter is_srv_event pre)" and eg: "eg_ok s1"
    by (simp_all add: reach_inv_def)
  from n have "\<forall>x. ServeRet (Some x) \<in> set pre \<longrightarrow> SrvExit \<notin> set pre" by simp
  with sh have se: "srv_err s1 = None" by (rule srv_err_None)
  from 2 f1 fr have "\<exists>x. sigp s1 = SigClosed x \<and> s2 = eg_return x (s1\<lparr>sigp := SigDone x\<rparr>)"
    by (cases rule: step_cases) simp_all
  then obtain x where pc: "sigp s1 = SigClosed x"
    and s2: "s2 = eg_return x (s1\<lparr>sigp := SigDone x\<rparr>)"
    by blast
  from pc have "sig_err s1 = None" by (simp add: sig_err_def)
  with eg se have e1: "egErr s1 = None" by (simp add: eg_ok_def)
  from 1 2 have 12: "exec (pre @ [SigExit]) (start r) = Some s2"
    by (simp add: exec_append del: step.simps)
  from s2 have "sig_val (sigp s2) = Some x" by (simp add: ret_simps)
  with fr 12 3 have "sig_val (sigp s) = Some x" by (rule sig_val_kept)
  with d have "x = Some a" by simp
  with s2 e1 have "egErr s2 = Some a" by (simp add: ret_simps)
  with fr 12 3 show ?thesis by (rule egErr_kept)
qed

lemma first_srv:
  assumes fr: "fresh r" and ex: "exec (pre @ SrvExit # post) (start r) = Some s"
    and n: "SigExit \<notin> set pre" and d: "srvp s = SrvDone (Some a)"
  shows "egErr s = Some a"
    and "\<exists>t. exec (pre @ [SrvExit]) (start r) = Some t \<and> egErr t = Some a \<and> ctxErr t \<noteq> None"
proof -
  from ex obtain s1 s2 where 1: "exec pre (start r) = Some s1"
    and 2: "step SrvExit s1 = Some s2" and 3: "exec post s2 = Some s"
    using exec_split by blast
  from reach [OF fr 1] have f1: "frame r s1"
    and sh: "sig_hist (sigp s1) (filter is_sig_event pre)" and eg: "eg_ok s1"
    by (simp_all add: reach_inv_def)
  from sh n have se: "sig_err s1 = None" by (rule sig_err_None)
  from 2 f1 fr have "\<exists>x. srvp s1 = SrvReturning x \<and> s2 = eg_return x (s1\<lparr>srvp := SrvDone x\<rparr>)"
    by (cases rule: step_cases) simp_all
  then obtain x where pc: "srvp s1 = SrvReturning x"
    and s2: "s2 = eg_return x (s1\<lparr>srvp := SrvDone x\<rparr>)"
    by blast
  from pc have "srv_err s1 = None" by (simp add: srv_err_def)
  with eg se have e1: "egErr s1 = None" by (simp add: eg_ok_def)
  from 1 2 have 12: "exec (pre @ [SrvExit]) (start r) = Some s2"
    by (simp add: exec_append del: step.simps)
  from s2 have "srv_val (srvp s2) = Some x" by (simp add: ret_simps)
  with fr 12 3 have "srv_val (srvp s) = Some x" by (rule srv_val_kept)
  with d have "x = Some a" by simp
  with s2 e1 have e2: "egErr s2 = Some a" by (simp add: ret_simps)
  with fr 12 3 show "egErr s = Some a" by (rule egErr_kept)
  from reach [OF fr 12] have "eg_ok s2" by (simp add: reach_inv_def)
  with e2 have "ctxErr s2 \<noteq> None" by (simp add: eg_ok_def)
  with 12 e2
  show "\<exists>t. exec (pre @ [SrvExit]) (start r) = Some t \<and> egErr t = Some a \<and> ctxErr t \<noteq> None"
    by blast
qed

text \<open>
  What \<^verbatim>\<open>Run\<close> returns, given the value \<open>x\<close> of goroutine 1: \<open>x\<close> when
  \<^verbatim>\<open>Serve\<close> returns no other error, \<open>x\<close> when it is an error and reaches the group
  first, and the error of \<^verbatim>\<open>Serve\<close> when that reaches the group first or \<open>x\<close> is nil.
\<close>

lemma run_result:
  assumes fr: "fresh r" and run: "Runner_Run r evs = Some (res, s)"
    and x: "sigp s = SigDone x"
  shows "(\<forall>e. ServeRet (Some e) \<in> set evs \<longrightarrow> Some e = x) \<longrightarrow> res = x"
    and "\<forall>pre post. evs = pre @ SigExit # post \<and> SrvExit \<notin> set pre \<and> x \<noteq> None \<longrightarrow> res = x"
    and "\<forall>pre post e. evs = pre @ SrvExit # post \<and> SigExit \<notin> set pre
           \<and> ServeRet (Some e) \<in> set evs \<longrightarrow> res = Some e"
    and "\<forall>e. x = None \<and> ServeRet (Some e) \<in> set evs \<longrightarrow> res = Some e"
    and "res = None \<longrightarrow> x = None \<and> (\<forall>e. ServeRet (Some e) \<notin> set evs)"
proof -
  note rd = Runner_RunD [OF run]
  from rd(4) obtain y where y: "srvp s = SrvDone y" ..
  from reach [OF fr rd(1)] have eg: "eg_ok s"
    and sh: "srv_hist (srvp s) (filter is_srv_event evs)"
    by (simp_all add: reach_inv_def)
  from x y have errs: "sig_err s = x" "srv_err s = y" by (simp_all add: sig_err_def srv_err_def)
  have yv: "\<And>e. ServeRet (Some e) \<in> set evs \<Longrightarrow> y = Some e"
    using srv_done_val [OF sh] y by simp
  have yn: "(\<forall>e. ServeRet (Some e) \<notin> set evs) \<Longrightarrow> y = None"
    using srv_done_nil sh y by simp
  show "(\<forall>e. ServeRet (Some e) \<in> set evs \<longrightarrow> Some e = x) \<longrightarrow> res = x"
  proof
    assume a: "\<forall>e. ServeRet (Some e) \<in> set evs \<longrightarrow> Some e = x"
    have "y = None \<or> y = x"
    proof (cases "\<exists>e. ServeRet (Some e) \<in> set evs")
      case True
      then obtain e where "ServeRet (Some e) \<in> set evs" ..
      with a yv show ?thesis by auto
    next
      case False
      with yn show ?thesis by simp
    qed
    with eg errs rd(2) show "res = x" by (auto simp: eg_ok_def)
  qed
  show "\<forall>pre post. evs = pre @ SigExit # post \<and> SrvExit \<notin> set pre \<and> x \<noteq> None \<longrightarrow> res = x"
  proof (intro allI impI)
    fix pre post
    assume a: "evs = pre @ SigExit # post \<and> SrvExit \<notin> set pre \<and> x \<noteq> None"
    then obtain v where v: "x = Some v" by auto
    from a rd(1) have "exec (pre @ SigExit # post) (start r) = Some s" by simp
    from first_sig [OF fr this] a x v rd(2) show "res = x" by simp
  qed
  show "\<forall>pre post e. evs = pre @ SrvExit # post \<and> SigExit \<notin> set pre
           \<and> ServeRet (Some e) \<in> set evs \<longrightarrow> res = Some e"
  proof (intro allI impI)
    fix pre post e
    assume a: "evs = pre @ SrvExit # post \<and> SigExit \<notin> set pre \<and> ServeRet (Some e) \<in> set evs"
    then have "ServeRet (Some e) \<in> set evs" by blast
    then have "y = Some e" by (rule yv)
    with y have d: "srvp s = SrvDone (Some e)" by simp
    from a rd(1) have "exec (pre @ SrvExit # post) (start r) = Some s" by simp
    from first_srv(1) [OF fr this _ d] a rd(2) show "res = Some e" by simp
  qed
  show "\<forall>e. x = None \<and> ServeRet (Some e) \<in> set evs \<longrightarrow> res = Some e"
  proof (intro allI impI)
    fix e
    assume a: "x = None \<and> ServeRet (Some e) \<in> set evs"
    then have "ServeRet (Some e) \<in> set evs" by blast
    then have "y = Some e" by (rule yv)
    with a eg errs rd(2) show "res = Some e" by (auto simp: eg_ok_def)
  qed
  show "res = None \<longrightarrow> x = None \<and> (\<forall>e. ServeRet (Some e) \<notin> set evs)"
  proof
    assume "res = None"
    with eg errs rd(2) have "x = None" "y = None" by (auto simp: eg_ok_def)
    with yv show "x = None \<and> (\<forall>e. ServeRet (Some e) \<notin> set evs)" by auto
  qed
qed

lemma no_deadline_no_close:
  assumes fr: "fresh r" and ex: "exec evs (start r) = Some s"
    and m: "ShutdownRet (Some DeadlineExceeded) \<notin> set evs"
  shows "CallClose \<notin> set (calls s)"
proof -
  from reach [OF fr ex] have "calls s = concat (map call_of evs)"
    by (simp add: reach_inv_def)
  with m show ?thesis by (simp only: CallClose_calls) simp
qed

text \<open>\<^verbatim>\<open>Shutdown\<close> returns \<^verbatim>\<open>context.DeadlineExceeded\<close>.\<close>

lemma deadline_result:
  assumes fr: "fresh r" and run: "Runner_Run r evs = Some (res, s)"
    and m: "ShutdownRet (Some DeadlineExceeded) \<in> set evs"
  shows "count_list (calls s) CallClose = 1 \<and>
         (\<exists>c. CloseRet c \<in> set evs \<and>
            sigp s = SigDone (Some (LameDuck (Some (LameDuckError True c)))) \<and>
            ((\<forall>e. ServeRet (Some e) \<notin> set evs) \<longrightarrow>
               res = Some (LameDuck (Some (LameDuckError True c)))) \<and>
            (\<forall>pre post. evs = pre @ SigExit # post \<and> SrvExit \<notin> set pre \<longrightarrow>
               res = Some (LameDuck (Some (LameDuckError True c)))) \<and>
            (\<forall>pre post e. evs = pre @ SrvExit # post \<and> SigExit \<notin> set pre
               \<and> ServeRet (Some e) \<in> set evs \<longrightarrow> res = Some e))"
proof -
  note rd = Runner_RunD [OF run]
  from rd(3) obtain x where x: "sigp s = SigDone x" ..
  from reach [OF fr rd(1)] x have sh: "sig_hist (SigDone x) (filter is_sig_event evs)"
    and cs: "calls s = concat (map call_of evs)"
    by (simp_all add: reach_inv_def)
  from sig_done_deadline [OF sh m] obtain c where
    fl: "filter is_sig_event evs =
           [SigStart, SigRecv, ShutdownRet (Some DeadlineExceeded), CloseRet c,
            SigDefer, SigExit]"
    and xc: "x = Some (LameDuck (Some (LameDuckError True c)))"
    by blast
  from x xc have fin: "sigp s = SigDone (Some (LameDuck (Some (LameDuckError True c))))"
    by simp
  have "count_list (calls s) CallClose = count_list evs (ShutdownRet (Some DeadlineExceeded))"
    by (simp only: cs count_CallClose)
  also have "\<dots> = count_list (filter is_sig_event evs) (ShutdownRet (Some DeadlineExceeded))"
    by (rule count_list_filter_eq [symmetric]) simp
  also have "\<dots> = 1" by (simp add: fl)
  finally have once: "count_list (calls s) CallClose = 1" .
  have "set [SigStart, SigRecv, ShutdownRet (Some DeadlineExceeded), CloseRet c,
      SigDefer, SigExit] \<subseteq> set evs"
    by (metis fl filter_is_subset)
  then have cl: "CloseRet c \<in> set evs" by simp
  note rr = run_result [OF fr run fin]
  from rr(1) have a: "(\<forall>e. ServeRet (Some e) \<notin> set evs) \<longrightarrow>
      res = Some (LameDuck (Some (LameDuckError True c)))"
    by blast
  from rr(2) have b: "\<forall>pre post. evs = pre @ SigExit # post \<and> SrvExit \<notin> set pre \<longrightarrow>
      res = Some (LameDuck (Some (LameDuckError True c)))"
    by blast
  from once cl fin a b rr(3) show ?thesis by blast
qed

text \<open>\<^verbatim>\<open>Shutdown\<close> returns another error.\<close>

lemma shutdown_other:
  assumes fr: "fresh r" and evs: "evs = pre @ ShutdownRet (Some e) # post"
    and run: "Runner_Run r evs = Some (res, s)"
    and ne: "e \<noteq> DeadlineExceeded"
  shows "CallClose \<notin> set (calls s)
    \<and> sigp s = SigDone (Some (LameDuck (Some (LameDuckError False (Some e)))))
    \<and> (\<exists>t. exec (pre @ [ShutdownRet (Some e)]) (start r) = Some t \<and> ctxErr t \<noteq> None)
    \<and> ((\<forall>x. ServeRet (Some x) \<notin> set evs) \<longrightarrow>
          res = Some (LameDuck (Some (LameDuckError False (Some e)))))
    \<and> (\<forall>p q. evs = p @ SigExit # q \<and> SrvExit \<notin> set p \<longrightarrow>
          res = Some (LameDuck (Some (LameDuckError False (Some e)))))
    \<and> (\<forall>p q x. evs = p @ SrvExit # q \<and> SigExit \<notin> set p \<and> ServeRet (Some x) \<in> set evs \<longrightarrow>
          res = Some x)"
proof -
  note rd = Runner_RunD [OF run]
  from rd(3) obtain x where x: "sigp s = SigDone x" ..
  from reach [OF fr rd(1)] have sh: "sig_hist (sigp s) (filter is_sig_event evs)"
    by (simp add: reach_inv_def)
  from evs have me: "ShutdownRet (Some e) \<in> set evs" by simp
  have "ShutdownRet (Some DeadlineExceeded) \<notin> set evs"
  proof
    assume "ShutdownRet (Some DeadlineExceeded) \<in> set evs"
    with sh have "Some DeadlineExceeded = Some e" using me by (rule ShutdownRet_unique)
    with ne show False by simp
  qed
  with fr rd(1) have nc: "CallClose \<notin> set (calls s)" by (rule no_deadline_no_close)
  from sh x have "sig_hist (SigDone x) (filter is_sig_event evs)" by simp
  then have "x = Some (LameDuck (Some (LameDuckError False (Some e))))"
    using me ne by (rule sig_done_other)
  with x have fin: "sigp s = SigDone (Some (LameDuck (Some (LameDuckError False (Some e)))))"
    by simp
  from rd(1) evs obtain s1 s2 where 1: "exec pre (start r) = Some s1"
    and 2: "step (ShutdownRet (Some e)) s1 = Some s2"
    using exec_split by blast
  from reach [OF fr 1] have f1: "frame r s1" by (simp add: reach_inv_def)
  from 2 f1 fr have "ctxErr s2 \<noteq> None"
    by (cases rule: step_cases) (use ne in \<open>simp_all add: ret_simps\<close>)
  moreover from 1 2 have "exec (pre @ [ShutdownRet (Some e)]) (start r) = Some s2"
    by (simp add: exec_append del: step.simps)
  ultimately
  have c: "\<exists>t. exec (pre @ [ShutdownRet (Some e)]) (start r) = Some t \<and> ctxErr t \<noteq> None"
    by blast
  note rr = run_result [OF fr run fin]
  from rr(1) have a: "(\<forall>x. ServeRet (Some x) \<notin> set evs) \<longrightarrow>
      res = Some (LameDuck (Some (LameDuckError False (Some e))))"
    by blast
  from rr(2) have b: "\<forall>p q. evs = p @ SigExit # q \<and> SrvExit \<notin> set p \<longrightarrow>
      res = Some (LameDuck (Some (LameDuckError False (Some e))))"
    by blast
  from nc fin c a b rr(3) show ?thesis by blast
qed

text \<open>The \<^verbatim>\<open>select\<close> of goroutine 1 sees the context cancelled.\<close>

lemma canceled_result:
  assumes fr: "fresh r" and evs: "evs = p1 @ SigCtxDone # p2"
    and run: "Runner_Run r evs = Some (res, s)"
    and ns: "\<forall>x. ServeRet (Some x) \<in> set p1 \<longrightarrow> SrvExit \<notin> set p1"
  shows "\<exists>e. CtxCancel e \<in> set p1 \<and> sigp s = SigDone (Some e)"
proof -
  note rd = Runner_RunD [OF run]
  from rd(3) obtain x where x: "sigp s = SigDone x" ..
  from rd(1) evs obtain s1 s2 where 1: "exec p1 (start r) = Some s1"
    and 2: "step SigCtxDone s1 = Some s2" and 3: "exec p2 s2 = Some s"
    using exec_split by blast
  from reach [OF fr 1] have f1: "frame r s1"
    and sh: "srv_hist (srvp s1) (filter is_srv_event p1)"
    and eg: "eg_ok s1" and co: "ctx_origin p1 s1"
    by (simp_all add: reach_inv_def)
  from 2 f1 fr
  have "\<exists>e. sigp s1 = SigSelect \<and> ctxErr s1 = Some e \<and> s2 = s1\<lparr>sigp := SigReturning (Some e)\<rparr>"
    by (cases rule: step_cases) simp_all
  then obtain e where pc: "sigp s1 = SigSelect" and ce: "ctxErr s1 = Some e"
    and s2: "s2 = s1\<lparr>sigp := SigReturning (Some e)\<rparr>"
    by blast
  from pc have "sig_err s1 = None" by (simp add: sig_err_def)
  moreover from sh ns have "srv_err s1 = None" by (rule srv_err_None)
  ultimately have "egErr s1 = None" using eg by (simp add: eg_ok_def)
  with co ce pc have c: "CtxCancel e \<in> set p1" by (simp add: ctx_origin_def)
  from 1 2 have 12: "exec (p1 @ [SigCtxDone]) (start r) = Some s2"
    by (simp add: exec_append del: step.simps)
  from s2 have "sig_val (sigp s2) = Some (Some e)" by simp
  with fr 12 3 have "sig_val (sigp s) = Some (Some e)" by (rule sig_val_kept)
  with x have "sigp s = SigDone (Some e)" by simp
  with c show ?thesis by blast
qed

subsection \<open>Construction\<close>

lemma Option_set_fresh: "Option_set opt r = Returns r' \<Longrightarrow> fresh r \<Longrightarrow> fresh r'"
  by (cases opt) (auto simp: fresh_def Let_def split: option.splits)

lemma apply_options_fresh: "apply_options opts r = Returns r' \<Longrightarrow> fresh r \<Longrightarrow> fresh r'"
proof (induction opts arbitrary: r)
  case Nil
  then show ?case by simp
next
  case (Cons opt opts)
  from Cons.prems(1) obtain r1 where 1: "Option_set opt r = Returns r1"
    and 2: "apply_options opts r1 = Returns r'"
    by (auto split: go.splits)
  from 1 Cons.prems(2) have "fresh r1" by (rule Option_set_fresh)
  with 2 show ?case by (rule Cons.IH)
qed

lemma newRunner_fresh:
  assumes "newRunner svr options = Returns (Inr r)"
  shows "fresh r"
proof -
  let ?r0 = "\<lparr>server = svr, period = defaultPeriod, escOK = False,
                 signals = defaultSignals, logf = Some log_Infof, psHook = None,
                 state = NotStarted, ready = Some Open, doneC = Some Open, once = False\<rparr>"
  from assms have sv: "svr \<noteq> None" and ap: "apply_options options ?r0 = Returns r"
    by (auto simp: newRunner_def split: if_splits go.splits)
  from sv have "fresh ?r0" by (simp add: fresh_def)
  with ap show ?thesis by (rule apply_options_fresh)
qed


lemma apply_options_panics:
  "loggerOption None \<in> set opts \<Longrightarrow> apply_options opts r = Panics"
proof (induction opts arbitrary: r)
  case Nil
  then show ?case by simp
next
  case (Cons opt opts)
  show ?case
  proof (cases "Option_set opt r")
    case Panics
    then show ?thesis by simp
  next
    case (Returns r1)
    then have "opt \<noteq> loggerOption None" by auto
    with Cons.prems have "loggerOption None \<in> set opts" by simp
    then have "apply_options opts r1 = Panics" by (rule Cons.IH)
    with Returns show ?thesis by simp
  qed
qed

lemma apply_options_resolved:
  "loggerOption None \<notin> set opts \<Longrightarrow>
     \<exists>r'. apply_options opts r = Returns r'
       \<and> period r' = resolved_period opts (period r)
       \<and> signals r' = resolved_signals opts (signals r)"
proof (induction opts arbitrary: r)
  case Nil
  show ?case by simp
next
  case (Cons opt opts)
  from Cons.prems have n: "loggerOption None \<notin> set opts" and o: "opt \<noteq> loggerOption None"
    by auto
  show ?case
  proof (cases opt)
    case (period_opt p)
    with Cons.IH [OF n, of "r\<lparr>period := p\<rparr>"] show ?thesis by simp
  next
    case (signals_opt sg)
    with Cons.IH [OF n, of "r\<lparr>signals := sg\<rparr>"] show ?thesis by simp
  next
    case (loggerOption l)
    with o obtain lg where "l = Some lg" by (cases l) auto
    with loggerOption Cons.IH [OF n, of "r\<lparr>logf := Some (Logger_Infof lg)\<rparr>"]
    show ?thesis by simp
  next
    case (hookFunction f)
    with Cons.IH [OF n, of "r\<lparr>psHook := f\<rparr>"] show ?thesis by simp
  next
    case escOK_opt
    with Cons.IH [OF n, of "r\<lparr>escOK := True\<rparr>"] show ?thesis by simp
  qed
qed

text \<open>
  Where no option carries a nil \<^verbatim>\<open>Logger\<close>, construction fails exactly on a nil server,
  a period that is not positive or an empty list of signals, after the options were
  applied in order; the defaults are 3 seconds and SIGINT, SIGTERM.
\<close>

lemma newRunner_validation:
  assumes "loggerOption None \<notin> set options"
  shows "(\<exists>e. newRunner svr options = Returns (Inl e)) \<longleftrightarrow>
           (svr = None \<or> sint (resolved_period options defaultPeriod) \<le> 0
            \<or> resolved_signals options defaultSignals = [])"
    and "(\<exists>r. newRunner svr options = Returns (Inr r)
              \<and> period r = resolved_period options defaultPeriod
              \<and> signals r = resolved_signals options defaultSignals) \<longleftrightarrow>
           (svr \<noteq> None \<and> 0 < sint (resolved_period options defaultPeriod)
            \<and> resolved_signals options defaultSignals \<noteq> [])"
proof -
  let ?r0 = "\<lparr>server = svr, period = defaultPeriod, escOK = False,
                 signals = defaultSignals, logf = Some log_Infof, psHook = None,
                 state = NotStarted, ready = Some Open, doneC = Some Open, once = False\<rparr>"
  from apply_options_resolved [OF assms, of ?r0] obtain r' where
    r': "apply_options options ?r0 = Returns r'"
      "period r' = resolved_period options defaultPeriod"
      "signals r' = resolved_signals options defaultSignals"
    by auto
  show "(\<exists>e. newRunner svr options = Returns (Inl e)) \<longleftrightarrow>
           (svr = None \<or> sint (resolved_period options defaultPeriod) \<le> 0
            \<or> resolved_signals options defaultSignals = [])"
    using r' by (auto simp: newRunner_def)
  show "(\<exists>r. newRunner svr options = Returns (Inr r)
              \<and> period r = resolved_period options defaultPeriod
              \<and> signals r = resolved_signals options defaultSignals) \<longleftrightarrow>
           (svr \<noteq> None \<and> 0 < sint (resolved_period options defaultPeriod)
            \<and> resolved_signals options defaultSignals \<noteq> [])"
    using r' by (auto simp: newRunner_def)
qed

lemma newRunner_defaults:
  "newRunner (Some sv) [] = Returns (Inr r) \<Longrightarrow>
     period r = 3 * Second \<and> signals r = [SIGINT, SIGTERM]"
  by (auto simp: newRunner_def defaultPeriod_def defaultSignals_def split: if_splits)

text \<open>
  \<^verbatim>\<open>State()\<close> answers \<open>Unknown\<close> for the nil coordinator and for one without a
  \<^verbatim>\<open>done\<close> channel, and \<open>NotStarted\<close> for a coordinator that \<^verbatim>\<open>newRunner\<close> returned.
\<close>

lemma Runner_State_Unknown:
  "Runner_State None = Unknown" "doneC r = None \<Longrightarrow> Runner_State (Some r) = Unknown"
  by (simp_all add: Runner_State_def)

lemma Runner_State_new:
  "newRunner svr options = Returns (Inr r) \<Longrightarrow> Runner_State (Some r) = NotStarted"
  by (drule newRunner_fresh) (simp add: Runner_State_def fresh_def)

text \<open>
  The method \<^verbatim>\<open>serve\<close> absorbs \<^verbatim>\<open>http.ErrServerClosed\<close> when the flag is set, and
  nothing else.
\<close>

lemma Runner_serve_absorbs:
  "Runner_serve (Some r) err =
     (if escOK r \<and> err = Some ErrServerClosed then None else err)"
  by (simp add: Runner_serve_def)

subsection \<open>The runs of the tests\<close>

lemma newRunner_test_runner: "newRunner (Some 0) [] = Returns (Inr test_runner)"
  by (simp add: newRunner_def test_runner_def defaultPeriod_def Second_def defaultSignals_def)

lemma newRunner_escOK_runner:
  "newRunner (Some 0) [ErrServerClosedOK] = Returns (Inr escOK_runner)"
  by (simp add: newRunner_def escOK_runner_def test_runner_def ErrServerClosedOK_def
      defaultPeriod_def Second_def defaultSignals_def)

lemma newRunner_hook_runner:
  "newRunner (Some 0) [WithPreShutdownHook (Some 7)] = Returns (Inr hook_runner)"
  by (simp add: newRunner_def hook_runner_def test_runner_def WithPreShutdownHook_def
      defaultPeriod_def Second_def defaultSignals_def)

lemma TestRun_normal:
  "Runner_Run test_runner normal_run = Some (None, run_of test_runner normal_run)"
  by code_simp

lemma TestRun_expired:
  "Runner_Run test_runner expired_run =
     Some (Some (LameDuck (Some (LameDuckError True None))), run_of test_runner expired_run)"
  by code_simp

lemma TestRun_canceled:
  "Runner_Run test_runner canceled_run = Some (Some Canceled, run_of test_runner canceled_run)"
  by code_simp

lemma TestRun_nostart:
  "Runner_Run test_runner nostart_run =
     Some (Some errServeFailed, run_of test_runner nostart_run)"
  by code_simp

lemma TestRun_badstop:
  "Runner_Run test_runner badstop_run =
     Some (Some (LameDuck (Some (LameDuckError False (Some errShutdownFailed)))),
           run_of test_runner badstop_run)"
  by code_simp

text \<open>
  The order in which the methods of the Server return does not decide what \<^verbatim>\<open>Run\<close>
  returns: in both runs below \<^verbatim>\<open>Serve\<close> fails before \<^verbatim>\<open>Shutdown\<close> does; in the first
  goroutine 1 reaches the \<^verbatim>\<open>errgroup\<close> first, in the second goroutine 2 does.
\<close>

lemma Run_first_to_the_group:
  "map_option fst (Runner_Run test_runner
     [SigStart, SrvStart, Deliver SIGTERM, SigRecv, ServeRet (Some errAccept),
      ShutdownRet (Some errShutdownFailed), SigDefer, SigExit, SrvExit]) =
     Some (Some (LameDuck (Some (LameDuckError False (Some errShutdownFailed)))))
   \<and> map_option fst (Runner_Run test_runner
     [SigStart, SrvStart, Deliver SIGTERM, SigRecv, ServeRet (Some errAccept),
      ShutdownRet (Some errShutdownFailed), SrvExit, SigDefer, SigExit]) =
     Some (Some errAccept)"
  by code_simp

section \<open>Shutdown past the deadline\<close>

text \<open>
  C1, as the code has it. In every completed run of a coordinator that \<^verbatim>\<open>newRunner\<close>
  built, if \<^verbatim>\<open>Shutdown\<close> returns \<^verbatim>\<open>context.DeadlineExceeded\<close> then \<^verbatim>\<open>Close\<close> is called
  exactly once and goroutine 1 returns the \<^verbatim>\<open>*LameDuckError\<close> with \<open>Expired\<close> set and
  \<open>Err\<close> the value that \<^verbatim>\<open>Close\<close> returned. \<^verbatim>\<open>Run\<close> returns that error when \<^verbatim>\<open>Serve\<close>
  returns nil, and when goroutine 1 reaches the \<^verbatim>\<open>errgroup\<close> before goroutine 2 does;
  when \<^verbatim>\<open>Serve\<close> returns an error and goroutine 2 reaches the \<^verbatim>\<open>errgroup\<close> first,
  \<^verbatim>\<open>Run\<close> returns that error of \<^verbatim>\<open>Serve\<close>. If \<^verbatim>\<open>Shutdown\<close> does not return
  \<^verbatim>\<open>context.DeadlineExceeded\<close>, \<^verbatim>\<open>Close\<close> is never called.
\<close>

theorem Run_deadline_exceeded:
  assumes "newRunner svr options = Returns (Inr r)"
    and "Runner_Run r evs = Some (res, s)"
  shows "(ShutdownRet (Some DeadlineExceeded) \<in> set evs \<longrightarrow>
            count_list (calls s) CallClose = 1 \<and>
            (\<exists>c. CloseRet c \<in> set evs \<and>
               sigp s = SigDone (Some (LameDuck (Some (LameDuckError True c)))) \<and>
               ((\<forall>e. ServeRet (Some e) \<notin> set evs) \<longrightarrow>
                  res = Some (LameDuck (Some (LameDuckError True c)))) \<and>
               (\<forall>pre post. evs = pre @ SigExit # post \<and> SrvExit \<notin> set pre \<longrightarrow>
                  res = Some (LameDuck (Some (LameDuckError True c)))) \<and>
               (\<forall>pre post e. evs = pre @ SrvExit # post \<and> SigExit \<notin> set pre
                  \<and> ServeRet (Some e) \<in> set evs \<longrightarrow> res = Some e)))
         \<and> (ShutdownRet (Some DeadlineExceeded) \<notin> set evs \<longrightarrow> CallClose \<notin> set (calls s))"
proof -
  from assms(1) have fr: "fresh r" by (rule newRunner_fresh)
  from assms(2) have ex: "exec evs (start r) = Some s" by (rule Runner_RunD)
  from deadline_result [OF fr assms(2)] no_deadline_no_close [OF fr ex]
  show ?thesis by blast
qed

text \<open>The case "expired" of \<^verbatim>\<open>TestRun\<close>, and its case "normal" for the converse.\<close>

theorem Run_deadline_exceeded_witness:
  "newRunner (Some 0) [] = Returns (Inr test_runner)
   \<and> Runner_Run test_runner expired_run =
       Some (Some (LameDuck (Some (LameDuckError True None))), run_of test_runner expired_run)
   \<and> ShutdownRet (Some DeadlineExceeded) \<in> set expired_run
   \<and> count_list (calls (run_of test_runner expired_run)) CallClose = 1
   \<and> CallClose \<notin> set (calls (run_of test_runner normal_run))"
proof -
  have m: "ShutdownRet (Some DeadlineExceeded) \<in> set expired_run"
    by (simp add: expired_run_def)
  have n: "ShutdownRet (Some DeadlineExceeded) \<notin> set normal_run"
    by (simp add: normal_run_def)
  from Run_deadline_exceeded [OF newRunner_test_runner TestRun_expired] m
  have "count_list (calls (run_of test_runner expired_run)) CallClose = 1" by blast
  moreover from Run_deadline_exceeded [OF newRunner_test_runner TestRun_normal] n
  have "CallClose \<notin> set (calls (run_of test_runner normal_run))" by blast
  ultimately show ?thesis using newRunner_test_runner TestRun_expired m by blast
qed

text \<open>
  As stated, C1 fails: in the run below a signal is delivered, \<^verbatim>\<open>Shutdown\<close> returns
  \<^verbatim>\<open>context.DeadlineExceeded\<close>, \<^verbatim>\<open>Close\<close> is called and returns nil, \<^verbatim>\<open>Serve\<close> then
  returns the error of its closed listener, and goroutine 2 hands it to the \<^verbatim>\<open>errgroup\<close>
  while goroutine 1 has not finished its deferred \<^verbatim>\<open>r.close()\<close>: the group keeps that
  first error, and \<^verbatim>\<open>Run\<close> returns it instead of the \<^verbatim>\<open>*LameDuckError\<close>.
\<close>

theorem Run_deadline_exceeded_counterexample:
  "newRunner (Some 0) [] = Returns (Inr test_runner)
   \<and> close_race_run =
       [SigStart, SrvStart, Deliver SIGTERM, SigRecv, ShutdownRet (Some DeadlineExceeded),
        CloseRet None, ServeRet (Some errAccept), SrvExit, SigDefer, SigExit]
   \<and> Runner_Run test_runner close_race_run =
       Some (Some errAccept, run_of test_runner close_race_run)
   \<and> sigp (run_of test_runner close_race_run) =
       SigDone (Some (LameDuck (Some (LameDuckError True None))))
   \<and> Some errAccept \<noteq> Some (LameDuck (Some (LameDuckError True None)))"
proof -
  have "Runner_Run test_runner close_race_run =
       Some (Some errAccept, run_of test_runner close_race_run)"
    by code_simp
  moreover have "sigp (run_of test_runner close_race_run) =
       SigDone (Some (LameDuck (Some (LameDuckError True None))))"
    by code_simp
  ultimately show ?thesis
    using newRunner_test_runner by (simp add: close_race_run_def errAccept_def)
qed

section \<open>Shutdown fails\<close>

text \<open>
  C2, as the code has it. In every completed run of a coordinator that \<^verbatim>\<open>newRunner\<close>
  built in which \<^verbatim>\<open>Shutdown\<close> returns an error other than
  \<^verbatim>\<open>context.DeadlineExceeded\<close>, \<^verbatim>\<open>Close\<close> is never called, the context of the two
  goroutines is cancelled once goroutine 1 has gone from that return of \<^verbatim>\<open>Shutdown\<close> to
  its own \<^verbatim>\<open>return\<close>, and goroutine 1 returns the \<^verbatim>\<open>*LameDuckError\<close> with \<open>Expired\<close>
  unset that holds that error. \<^verbatim>\<open>Run\<close> returns that error when \<^verbatim>\<open>Serve\<close> returns nil,
  and when goroutine 1 reaches the \<^verbatim>\<open>errgroup\<close> before goroutine 2 does; when \<^verbatim>\<open>Serve\<close>
  returns an error and goroutine 2 reaches the \<^verbatim>\<open>errgroup\<close> first, \<^verbatim>\<open>Run\<close> returns that
  error of \<^verbatim>\<open>Serve\<close>.
\<close>

theorem Run_shutdown_failed:
  assumes "newRunner svr options = Returns (Inr r)"
    and "evs = pre @ ShutdownRet (Some e) # post"
    and "Runner_Run r evs = Some (res, s)"
    and "e \<noteq> DeadlineExceeded"
  shows "CallClose \<notin> set (calls s)
    \<and> sigp s = SigDone (Some (LameDuck (Some (LameDuckError False (Some e)))))
    \<and> (\<exists>t. exec (pre @ [ShutdownRet (Some e)]) (start r) = Some t \<and> ctxErr t \<noteq> None)
    \<and> ((\<forall>x. ServeRet (Some x) \<notin> set evs) \<longrightarrow>
          res = Some (LameDuck (Some (LameDuckError False (Some e)))))
    \<and> (\<forall>p q. evs = p @ SigExit # q \<and> SrvExit \<notin> set p \<longrightarrow>
          res = Some (LameDuck (Some (LameDuckError False (Some e)))))
    \<and> (\<forall>p q x. evs = p @ SrvExit # q \<and> SigExit \<notin> set p \<and> ServeRet (Some x) \<in> set evs \<longrightarrow>
          res = Some x)"
  using newRunner_fresh [OF assms(1)] assms(2,3,4) by (rule shutdown_other)

text \<open>The case "badstop" of \<^verbatim>\<open>TestRun\<close>.\<close>

theorem Run_shutdown_failed_witness:
  "newRunner (Some 0) [] = Returns (Inr test_runner)
   \<and> Runner_Run test_runner badstop_run =
       Some (Some (LameDuck (Some (LameDuckError False (Some errShutdownFailed)))),
             run_of test_runner badstop_run)
   \<and> errShutdownFailed \<noteq> DeadlineExceeded
   \<and> CallClose \<notin> set (calls (run_of test_runner badstop_run))
   \<and> sigp (run_of test_runner badstop_run) =
       SigDone (Some (LameDuck (Some (LameDuckError False (Some errShutdownFailed)))))
   \<and> (\<exists>t. exec [SigStart, SrvStart, Deliver SIGTERM, SigRecv, ServeRet None,
              ShutdownRet (Some errShutdownFailed)] (start test_runner) = Some t
          \<and> ctxErr t \<noteq> None)"
proof -
  have ne: "errShutdownFailed \<noteq> DeadlineExceeded" by (simp add: errShutdownFailed_def)
  have evs: "badstop_run = [SigStart, SrvStart, Deliver SIGTERM, SigRecv, ServeRet None]
      @ ShutdownRet (Some errShutdownFailed) # [SigDefer, SigExit, SrvWake, SrvExit]"
    by (simp add: badstop_run_def)
  from Run_shutdown_failed [OF newRunner_test_runner evs TestRun_badstop ne]
  show ?thesis using newRunner_test_runner TestRun_badstop ne by simp
qed

text \<open>
  As stated, C2 fails: in the run below a signal is delivered, \<^verbatim>\<open>Serve\<close> returns
  \<^verbatim>\<open>http.ErrServerClosed\<close> as soon as \<^verbatim>\<open>Shutdown\<close> is called, goroutine 2 hands it to
  the \<^verbatim>\<open>errgroup\<close>, which cancels the context, and \<^verbatim>\<open>Shutdown\<close> returns
  \<^verbatim>\<open>context.Canceled\<close>; \<^verbatim>\<open>Run\<close> returns \<^verbatim>\<open>http.ErrServerClosed\<close>, not a
  \<^verbatim>\<open>*LameDuckError\<close>.
\<close>

theorem Run_shutdown_failed_counterexample:
  "newRunner (Some 0) [] = Returns (Inr test_runner)
   \<and> http_canceled_run =
       [SigStart, SrvStart, Deliver SIGTERM, SigRecv, ServeRet (Some ErrServerClosed),
        SrvExit, ShutdownRet (Some Canceled), SigDefer, SigExit]
   \<and> Runner_Run test_runner http_canceled_run =
       Some (Some ErrServerClosed, run_of test_runner http_canceled_run)
   \<and> sigp (run_of test_runner http_canceled_run) =
       SigDone (Some (LameDuck (Some (LameDuckError False (Some Canceled)))))
   \<and> Some ErrServerClosed \<noteq> Some (LameDuck (Some (LameDuckError False (Some Canceled))))"
proof -
  have "Runner_Run test_runner http_canceled_run =
       Some (Some ErrServerClosed, run_of test_runner http_canceled_run)"
    by code_simp
  moreover have "sigp (run_of test_runner http_canceled_run) =
       SigDone (Some (LameDuck (Some (LameDuckError False (Some Canceled)))))"
    by code_simp
  ultimately show ?thesis
    using newRunner_test_runner by (simp add: http_canceled_run_def)
qed

section \<open>Serve fails\<close>

text \<open>
  C3, as the code has it. In every completed run of a coordinator that \<^verbatim>\<open>newRunner\<close>
  built in which \<^verbatim>\<open>Serve\<close> returns an error and goroutine 2 hands it to the
  \<^verbatim>\<open>errgroup\<close> before goroutine 1 has handed over its value, \<^verbatim>\<open>Run\<close> returns that very
  error, not wrapped; the \<^verbatim>\<open>errgroup\<close> holds it from that moment on, and has cancelled
  the context of the two goroutines, so that \<^verbatim>\<open>waitForSignal\<close> can return without a
  signal.
\<close>

theorem Run_serve_failed:
  assumes "newRunner svr options = Returns (Inr r)"
    and "evs = pre @ SrvExit # post"
    and "Runner_Run r evs = Some (res, s)"
    and "ServeRet (Some e) \<in> set pre" and "SigExit \<notin> set pre"
  shows "res = Some e
    \<and> srvp s = SrvDone (Some e)
    \<and> (\<exists>t. exec (pre @ [SrvExit]) (start r) = Some t \<and> egErr t = Some e \<and> ctxErr t \<noteq> None)"
proof -
  from assms(1) have fr: "fresh r" by (rule newRunner_fresh)
  note rd = Runner_RunD [OF assms(3)]
  from rd(1) assms(2) have ex: "exec (pre @ SrvExit # post) (start r) = Some s" by simp
  from rd(4) obtain y where y: "srvp s = SrvDone y" ..
  from reach [OF fr rd(1)] have sh: "srv_hist (srvp s) (filter is_srv_event evs)"
    by (simp add: reach_inv_def)
  from assms(2,4) have "ServeRet (Some e) \<in> set evs" by simp
  with sh have "srv_val (srvp s) = Some (Some e)" by (rule srv_done_val)
  with y have d: "srvp s = SrvDone (Some e)" by simp
  from first_srv [OF fr ex assms(5) d] rd(2) d show ?thesis by simp
qed

text \<open>The case "nostart" of \<^verbatim>\<open>TestRun\<close>.\<close>

theorem Run_serve_failed_witness:
  "newRunner (Some 0) [] = Returns (Inr test_runner)
   \<and> Runner_Run test_runner nostart_run =
       Some (Some errServeFailed, run_of test_runner nostart_run)
   \<and> nostart_run =
       [SigStart, SrvStart, ServeRet (Some errServeFailed)] @ SrvExit
         # [SigCtxDone, SigDefer, SigExit]
   \<and> srvp (run_of test_runner nostart_run) = SrvDone (Some errServeFailed)
   \<and> (\<exists>t. exec [SigStart, SrvStart, ServeRet (Some errServeFailed), SrvExit]
              (start test_runner) = Some t
          \<and> egErr t = Some errServeFailed \<and> ctxErr t \<noteq> None)"
proof -
  have evs: "nostart_run = [SigStart, SrvStart, ServeRet (Some errServeFailed)] @ SrvExit
      # [SigCtxDone, SigDefer, SigExit]"
    by (simp add: nostart_run_def)
  have "ServeRet (Some errServeFailed) \<in> set [SigStart, SrvStart, ServeRet (Some errServeFailed)]"
    "SigExit \<notin> set [SigStart, SrvStart, ServeRet (Some errServeFailed)]"
    by simp_all
  from Run_serve_failed [OF newRunner_test_runner evs TestRun_nostart this]
  show ?thesis using newRunner_test_runner TestRun_nostart evs by simp
qed

text \<open>
  As stated, C3 fails twice. In the first run no signal is ever seen and \<^verbatim>\<open>Serve\<close>
  returns an error, but before goroutine 2 has handed it to the \<^verbatim>\<open>errgroup\<close> the caller
  cancels, and goroutine 1 returns \<^verbatim>\<open>context.Canceled\<close> and reaches the \<^verbatim>\<open>errgroup\<close>
  first: \<^verbatim>\<open>Run\<close> returns \<^verbatim>\<open>context.Canceled\<close>. In the second run \<^verbatim>\<open>Serve\<close> fails
  before any signal is seen and \<^verbatim>\<open>Run\<close> returns its error, but a signal that arrives
  afterwards is still taken, and \<^verbatim>\<open>Shutdown\<close> and \<^verbatim>\<open>Close\<close> are called.
\<close>

theorem Run_serve_failed_counterexample:
  "newRunner (Some 0) [] = Returns (Inr test_runner)
   \<and> fail_then_cancel_run =
       [SigStart, SrvStart, ServeRet (Some errServeFailed), CtxCancel Canceled, SigCtxDone,
        SigDefer, SigExit, SrvExit]
   \<and> Runner_Run test_runner fail_then_cancel_run =
       Some (Some Canceled, run_of test_runner fail_then_cancel_run)
   \<and> Some Canceled \<noteq> Some errServeFailed
   \<and> fail_then_signal_run =
       [SigStart, SrvStart, ServeRet (Some errServeFailed), SrvExit, Deliver SIGTERM, SigRecv,
        ShutdownRet (Some DeadlineExceeded), CloseRet None, SigDefer, SigExit]
   \<and> Runner_Run test_runner fail_then_signal_run =
       Some (Some errServeFailed, run_of test_runner fail_then_signal_run)
   \<and> calls (run_of test_runner fail_then_signal_run) = [CallServe, CallShutdown, CallClose]"
proof -
  have "Runner_Run test_runner fail_then_cancel_run =
       Some (Some Canceled, run_of test_runner fail_then_cancel_run)"
    by code_simp
  moreover have "Runner_Run test_runner fail_then_signal_run =
       Some (Some errServeFailed, run_of test_runner fail_then_signal_run)"
    by code_simp
  moreover have
    "calls (run_of test_runner fail_then_signal_run) = [CallServe, CallShutdown, CallClose]"
    by code_simp
  ultimately show ?thesis
    using newRunner_test_runner
    by (simp add: fail_then_cancel_run_def fail_then_signal_run_def errServeFailed_def)
qed

section \<open>The caller cancels\<close>

text \<open>
  C4, as the code has it. In every completed run of a coordinator that \<^verbatim>\<open>newRunner\<close>
  built in which the \<^verbatim>\<open>select\<close> of goroutine 1 sees its context cancelled (and so takes
  no signal) before an error of \<^verbatim>\<open>Serve\<close> has reached the \<^verbatim>\<open>errgroup\<close>, the caller has
  cancelled its context, and goroutine 1 returns the \<^verbatim>\<open>Err()\<close> of that context, not
  wrapped. \<^verbatim>\<open>Run\<close> returns that error when \<^verbatim>\<open>Serve\<close> returns nil or that same error,
  and when goroutine 1 reaches the \<^verbatim>\<open>errgroup\<close> before goroutine 2 does; when \<^verbatim>\<open>Serve\<close>
  returns an error and goroutine 2 reaches the \<^verbatim>\<open>errgroup\<close> first, \<^verbatim>\<open>Run\<close> returns that
  error of \<^verbatim>\<open>Serve\<close>.
\<close>

theorem Run_canceled:
  assumes "newRunner svr options = Returns (Inr r)"
    and "evs = p1 @ SigCtxDone # p2"
    and "Runner_Run r evs = Some (res, s)"
    and "\<forall>x. ServeRet (Some x) \<in> set p1 \<longrightarrow> SrvExit \<notin> set p1"
  shows "\<exists>e. CtxCancel e \<in> set p1
    \<and> sigp s = SigDone (Some e)
    \<and> ((\<forall>x. ServeRet (Some x) \<in> set evs \<longrightarrow> x = e) \<longrightarrow> res = Some e)
    \<and> (\<forall>pre post. evs = pre @ SigExit # post \<and> SrvExit \<notin> set pre \<longrightarrow> res = Some e)
    \<and> (\<forall>pre post x. evs = pre @ SrvExit # post \<and> SigExit \<notin> set pre
          \<and> ServeRet (Some x) \<in> set evs \<longrightarrow> res = Some x)"
proof -
  from assms(1) have fr: "fresh r" by (rule newRunner_fresh)
  from canceled_result [OF fr assms(2,3,4)] obtain e where c: "CtxCancel e \<in> set p1"
    and fin: "sigp s = SigDone (Some e)"
    by blast
  note rr = run_result [OF fr assms(3) fin]
  from rr(1) have a: "(\<forall>x. ServeRet (Some x) \<in> set evs \<longrightarrow> x = e) \<longrightarrow> res = Some e"
    by simp
  from rr(2) have b: "\<forall>pre post. evs = pre @ SigExit # post \<and> SrvExit \<notin> set pre \<longrightarrow>
      res = Some e"
    by blast
  from c fin a b rr(3) show ?thesis by blast
qed

text \<open>The case "canceled" of \<^verbatim>\<open>TestRun\<close>.\<close>

theorem Run_canceled_witness:
  "newRunner (Some 0) [] = Returns (Inr test_runner)
   \<and> Runner_Run test_runner canceled_run = Some (Some Canceled, run_of test_runner canceled_run)
   \<and> canceled_run =
       [SigStart, SrvStart, CtxCancel Canceled] @ SigCtxDone
         # [ServeRet (Some Canceled), SigDefer, SigExit, SrvExit]
   \<and> (\<exists>e. CtxCancel e \<in> set [SigStart, SrvStart, CtxCancel Canceled]
          \<and> sigp (run_of test_runner canceled_run) = SigDone (Some e))"
proof -
  have evs: "canceled_run = [SigStart, SrvStart, CtxCancel Canceled] @ SigCtxDone
      # [ServeRet (Some Canceled), SigDefer, SigExit, SrvExit]"
    by (simp add: canceled_run_def)
  have "\<forall>x. ServeRet (Some x) \<in> set [SigStart, SrvStart, CtxCancel Canceled] \<longrightarrow>
      SrvExit \<notin> set [SigStart, SrvStart, CtxCancel Canceled]"
    by simp
  from Run_canceled [OF newRunner_test_runner evs TestRun_canceled this]
  show ?thesis using newRunner_test_runner TestRun_canceled evs by blast
qed

text \<open>
  As stated, C4 fails twice. In both runs the caller cancels before any signal is
  delivered and before \<^verbatim>\<open>Serve\<close> fails. In the first, the \<^verbatim>\<open>select\<close> of goroutine 1
  sees the cancellation, but \<^verbatim>\<open>Serve\<close> answers it with an error of its own, which
  goroutine 2 hands to the \<^verbatim>\<open>errgroup\<close> before goroutine 1 has finished: \<^verbatim>\<open>Run\<close>
  returns that error. In the second, a signal arrives after the cancellation, the
  \<^verbatim>\<open>select\<close> takes it, \<^verbatim>\<open>Shutdown\<close> returns nil, and \<^verbatim>\<open>Run\<close> returns nil.
\<close>

theorem Run_canceled_counterexample:
  "newRunner (Some 0) [] = Returns (Inr test_runner)
   \<and> cancel_serve_race_run =
       [SigStart, SrvStart, CtxCancel Canceled, SigCtxDone, ServeRet (Some errServeCanceled),
        SrvExit, SigDefer, SigExit]
   \<and> Runner_Run test_runner cancel_serve_race_run =
       Some (Some errServeCanceled, run_of test_runner cancel_serve_race_run)
   \<and> errServeCanceled \<noteq> Canceled
   \<and> cancel_signal_race_run =
       [SigStart, SrvStart, CtxCancel Canceled, Deliver SIGTERM, SigRecv, ServeRet None,
        ShutdownRet None, SigDefer, SigExit, SrvWake, SrvExit]
   \<and> Runner_Run test_runner cancel_signal_race_run =
       Some (None, run_of test_runner cancel_signal_race_run)"
proof -
  have "Runner_Run test_runner cancel_serve_race_run =
       Some (Some errServeCanceled, run_of test_runner cancel_serve_race_run)"
    by code_simp
  moreover have "Runner_Run test_runner cancel_signal_race_run =
       Some (None, run_of test_runner cancel_signal_race_run)"
    by code_simp
  ultimately show ?thesis
    using newRunner_test_runner
    by (simp add: errServeCanceled_def cancel_serve_race_run_def cancel_signal_race_run_def)
qed

section \<open>The lifecycle state\<close>

text \<open>
  C5 says that the state moves from NotStarted to Running, to Failed, and through
  Stopping to Stopped. \<^verbatim>\<open>Run\<close> (server.go) never assigns \<^verbatim>\<open>r.state\<close>: in every state
  that a run of a coordinator built by \<^verbatim>\<open>newRunner\<close> reaches, \<^verbatim>\<open>State()\<close> still
  answers NotStarted.
\<close>

theorem Run_keeps_state:
  assumes "newRunner svr options = Returns (Inr r)"
    and "exec evs (start r) = Some s"
  shows "Runner_State (Some (rn s)) = NotStarted"
proof -
  from assms(1) have fr: "fresh r" by (rule newRunner_fresh)
  from reach [OF fr assms(2)] have f: "frame r s" by (simp add: reach_inv_def)
  from frame_fields(5,10) [OF f fr] fr show ?thesis
    by (simp add: Runner_State_def fresh_def)
qed

text \<open>
  The case "nostart" of \<^verbatim>\<open>TestRun\<close>, where the test expects \<open>Failed\<close> after the run,
  and its case "normal", where it expects \<open>Stopped\<close>.
\<close>

theorem Run_keeps_state_witness:
  "newRunner (Some 0) [] = Returns (Inr test_runner)
   \<and> Runner_Run test_runner nostart_run =
       Some (Some errServeFailed, run_of test_runner nostart_run)
   \<and> Runner_State (Some (rn (run_of test_runner nostart_run))) = NotStarted
   \<and> Runner_State (Some (rn (run_of test_runner normal_run))) = NotStarted"
proof -
  have 1: "exec nostart_run (start test_runner) = Some (run_of test_runner nostart_run)"
    by code_simp
  have 2: "exec normal_run (start test_runner) = Some (run_of test_runner normal_run)"
    by code_simp
  from Run_keeps_state [OF newRunner_test_runner 1] Run_keeps_state [OF newRunner_test_runner 2]
  show ?thesis using newRunner_test_runner TestRun_nostart by simp
qed

section \<open>Construction with a nil Logger\<close>

text \<open>
  C6 says that construction fails exactly on a nil server, a period that is not positive
  or an empty list of signals, and succeeds otherwise. With \<^verbatim>\<open>WithoutLogger()\<close> (or
  \<^verbatim>\<open>WithLogger(nil)\<close>) among the options and a server that is not nil, \<^verbatim>\<open>newRunner\<close>
  neither fails nor succeeds: it panics in \<^verbatim>\<open>loggerOption.set\<close>.
\<close>

theorem newRunner_WithoutLogger_panics:
  assumes "svr \<noteq> None" and "WithoutLogger \<in> set options"
  shows "newRunner svr options = Panics"
  using assms by (simp add: newRunner_def WithoutLogger_def apply_options_panics)

theorem newRunner_WithoutLogger_panics_witness:
  "Some 0 \<noteq> (None :: Server option) \<and> WithoutLogger \<in> set [WithoutLogger]
   \<and> newRunner (Some 0) [WithoutLogger] = Panics
   \<and> newRunner (Some 0) [Period 0, WithLogger None] = Panics"
proof -
  have "WithoutLogger \<in> set [Period 0, WithLogger None]"
    by (simp add: WithoutLogger_def WithLogger_def)
  with newRunner_WithoutLogger_panics [of "Some 0" "[WithoutLogger]"]
    newRunner_WithoutLogger_panics [of "Some 0" "[Period 0, WithLogger None]"]
  show ?thesis by simp
qed

section \<open>The option ErrServerClosedOK\<close>

text \<open>
  C7 says that with the option \<^verbatim>\<open>ErrServerClosedOK()\<close> an \<^verbatim>\<open>http.ErrServerClosed\<close>
  from \<^verbatim>\<open>Serve\<close> is treated as nil and not returned by \<^verbatim>\<open>Run\<close>. The method
  \<^verbatim>\<open>serve\<close> does that, but \<^verbatim>\<open>Run\<close> (server.go) calls \<^verbatim>\<open>r.server.Serve(ctx)\<close>
  itself and never reads the flag: with the flag set, in every completed run in which
  \<^verbatim>\<open>Serve\<close> returns \<^verbatim>\<open>http.ErrServerClosed\<close>, \<^verbatim>\<open>Run\<close> returns an error, and that
  error is \<^verbatim>\<open>http.ErrServerClosed\<close> whenever goroutine 1 returns nil and whenever
  goroutine 2 reaches the \<^verbatim>\<open>errgroup\<close> before goroutine 1 does.
\<close>

theorem Run_returns_ErrServerClosed:
  assumes "newRunner svr options = Returns (Inr r)" and "escOK r"
    and "Runner_Run r evs = Some (res, s)"
    and "ServeRet (Some ErrServerClosed) \<in> set evs"
  shows "res \<noteq> None
    \<and> (sigp s = SigDone None \<longrightarrow> res = Some ErrServerClosed)
    \<and> (\<forall>pre post. evs = pre @ SrvExit # post \<and> SigExit \<notin> set pre \<longrightarrow>
          res = Some ErrServerClosed)
    \<and> Runner_serve (Some r) (Some ErrServerClosed) = None"
proof -
  from assms(1) have fr: "fresh r" by (rule newRunner_fresh)
  from Runner_RunD(3) [OF assms(3)] obtain x where x: "sigp s = SigDone x" ..
  note rr = run_result [OF fr assms(3) x]
  from rr(5) assms(4) have 1: "res \<noteq> None" by blast
  from rr(4) assms(4) x have 2: "sigp s = SigDone None \<longrightarrow> res = Some ErrServerClosed"
    by simp
  from rr(3) assms(4)
  have 3: "\<forall>pre post. evs = pre @ SrvExit # post \<and> SigExit \<notin> set pre \<longrightarrow>
      res = Some ErrServerClosed"
    by blast
  from assms(2) have "Runner_serve (Some r) (Some ErrServerClosed) = None"
    by (simp add: Runner_serve_def)
  with 1 2 3 show ?thesis by blast
qed

text \<open>
  A clean shutdown of an \<^verbatim>\<open>http.Server\<close>, with the option: \<^verbatim>\<open>Shutdown\<close> returns nil,
  and \<^verbatim>\<open>Run\<close> returns \<^verbatim>\<open>http.ErrServerClosed\<close>.
\<close>

theorem Run_returns_ErrServerClosed_witness:
  "newRunner (Some 0) [ErrServerClosedOK] = Returns (Inr escOK_runner)
   \<and> escOK escOK_runner
   \<and> ServeRet (Some ErrServerClosed) \<in> set http_clean_run
   \<and> sigp (run_of escOK_runner http_clean_run) = SigDone None
   \<and> Runner_Run escOK_runner http_clean_run =
       Some (Some ErrServerClosed, run_of escOK_runner http_clean_run)
   \<and> Runner_serve (Some escOK_runner) (Some ErrServerClosed) = None"
proof -
  have e: "escOK escOK_runner" by (simp add: escOK_runner_def)
  have r: "Runner_Run escOK_runner http_clean_run =
       Some (Some ErrServerClosed, run_of escOK_runner http_clean_run)"
    by code_simp
  have m: "ServeRet (Some ErrServerClosed) \<in> set http_clean_run"
    by (simp add: http_clean_run_def)
  have d: "sigp (run_of escOK_runner http_clean_run) = SigDone None" by code_simp
  from Run_returns_ErrServerClosed [OF newRunner_escOK_runner e r m]
  show ?thesis using newRunner_escOK_runner e r m d by blast
qed

section \<open>The pre-shutdown hook\<close>

text \<open>
  C8 says that a registered pre-shutdown hook is called once, right before
  \<^verbatim>\<open>Shutdown\<close>. \<^verbatim>\<open>WithPreShutdownHook\<close> stores the function in \<^verbatim>\<open>r.psHook\<close>, but
  \<^verbatim>\<open>Run\<close> (server.go) never reads that field: in every state that a run of a
  coordinator built by \<^verbatim>\<open>newRunner\<close> reaches, the hook has not been called, and the
  calls made are those to \<^verbatim>\<open>Serve\<close>, \<^verbatim>\<open>Shutdown\<close> and \<^verbatim>\<open>Close\<close>.
\<close>

theorem Run_never_calls_hook:
  assumes "newRunner svr options = Returns (Inr r)"
    and "exec evs (start r) = Some s"
  shows "CallHook \<notin> set (calls s) \<and> psHook (rn s) = psHook r"
proof -
  from assms(1) have fr: "fresh r" by (rule newRunner_fresh)
  from reach [OF fr assms(2)] have f: "frame r s"
    and cs: "calls s = concat (map call_of evs)"
    by (simp_all add: reach_inv_def)
  from cs have "CallHook \<notin> set (calls s)" by (simp only: CallHook_calls) simp
  with frame_fields(6) [OF f fr] show ?thesis by simp
qed

text \<open>The case "normal" of \<^verbatim>\<open>TestRun\<close>, with a hook.\<close>

theorem Run_never_calls_hook_witness:
  "newRunner (Some 0) [WithPreShutdownHook (Some 7)] = Returns (Inr hook_runner)
   \<and> psHook hook_runner = Some 7
   \<and> Runner_Run hook_runner normal_run = Some (None, run_of hook_runner normal_run)
   \<and> calls (run_of hook_runner normal_run) = [CallServe, CallShutdown]
   \<and> CallHook \<notin> set (calls (run_of hook_runner normal_run))"
proof -
  have 1: "exec normal_run (start hook_runner) = Some (run_of hook_runner normal_run)"
    by code_simp
  have 2: "Runner_Run hook_runner normal_run = Some (None, run_of hook_runner normal_run)"
    by code_simp
  have 3: "calls (run_of hook_runner normal_run) = [CallServe, CallShutdown]"
    by code_simp
  have 4: "psHook hook_runner = Some 7" by (simp add: hook_runner_def)
  from Run_never_calls_hook [OF newRunner_hook_runner 1]
  show ?thesis using newRunner_hook_runner 2 3 4 by blast
qed

section \<open>The message of a LameDuckError\<close>

text \<open>
  C9. For every \<^verbatim>\<open>*LameDuckError\<close>, \<^verbatim>\<open>Error()\<close> is "Lame-duck period has expired"
  when \<open>Expired\<close> is set, joined by " + " with the message of \<open>Err\<close> when \<open>Err\<close> is not
  nil and its message is not empty; it is the empty string when neither part is present
  (and for the nil pointer); \<^verbatim>\<open>Unwrap()\<close> returns the held \<open>Err\<close>.
\<close>

theorem LameDuckError_Error_composition:
  "LameDuckError_Error (Some (LameDuckError True (Some e))) =
     (if error_Error e = [] then ''Lame-duck period has expired''
      else ''Lame-duck period has expired'' @ '' + '' @ error_Error e)
   \<and> LameDuckError_Error (Some (LameDuckError True None)) = ''Lame-duck period has expired''
   \<and> LameDuckError_Error (Some (LameDuckError False (Some e))) = error_Error e
   \<and> LameDuckError_Error (Some (LameDuckError False None)) = []
   \<and> LameDuckError_Error None = []
   \<and> LameDuckError_Unwrap (Some (LameDuckError x err)) = err
   \<and> LameDuckError_Unwrap None = None"
  by (simp add: Let_def)

theorem LameDuckError_Error_composition_witness:
  "LameDuckError_Error (Some (LameDuckError True (Some (ErrorString ''server failed to shutdown'')))) =
     ''Lame-duck period has expired + server failed to shutdown''
   \<and> LameDuckError_Error (Some (LameDuckError False (Some (ErrorString ''server failed to shutdown'')))) =
     ''server failed to shutdown''
   \<and> LameDuckError_Error (Some (LameDuckError True (Some (ErrorString [])))) =
     ''Lame-duck period has expired''
   \<and> LameDuckError_Error (Some (LameDuckError False (Some (LameDuck None)))) = []
   \<and> LameDuckError_Unwrap (Some (LameDuckError True (Some Canceled))) = Some Canceled"
  using LameDuckError_Error_composition
      [of "ErrorString ''server failed to shutdown''" True "Some Canceled"]
    LameDuckError_Error_composition [of "ErrorString []" True "Some Canceled"]
    LameDuckError_Error_composition [of "LameDuck None" True "Some Canceled"]
  by simp

section \<open>An error that wraps the deadline error\<close>

text \<open>
  C10, as the code has it. \<^verbatim>\<open>Run\<close> compares the error of \<^verbatim>\<open>Shutdown\<close> with
  \<^verbatim>\<open>context.DeadlineExceeded\<close> by \<^verbatim>\<open>==\<close>. In every completed run of a coordinator
  that \<^verbatim>\<open>newRunner\<close> built in which \<^verbatim>\<open>Shutdown\<close> returns an error that wraps
  \<^verbatim>\<open>context.DeadlineExceeded\<close> without being it, \<^verbatim>\<open>Close\<close> is never called and
  goroutine 1 returns the \<^verbatim>\<open>*LameDuckError\<close> with \<open>Expired\<close> unset that holds that
  error, although \<^verbatim>\<open>errors.Is\<close> still finds \<^verbatim>\<open>context.DeadlineExceeded\<close> in it.
  \<^verbatim>\<open>Run\<close> returns that error when \<^verbatim>\<open>Serve\<close> returns nil, and when goroutine 1 reaches
  the \<^verbatim>\<open>errgroup\<close> before goroutine 2 does; when \<^verbatim>\<open>Serve\<close> returns an error and
  goroutine 2 reaches the \<^verbatim>\<open>errgroup\<close> first, \<^verbatim>\<open>Run\<close> returns that error of \<^verbatim>\<open>Serve\<close>.
\<close>

theorem Run_wrapped_deadline:
  assumes "newRunner svr options = Returns (Inr r)"
    and "evs = pre @ ShutdownRet (Some e) # post"
    and "Runner_Run r evs = Some (res, s)"
    and "errors_Is e DeadlineExceeded" and "e \<noteq> DeadlineExceeded"
  shows "CallClose \<notin> set (calls s)
    \<and> sigp s = SigDone (Some (LameDuck (Some (LameDuckError False (Some e)))))
    \<and> errors_Is (LameDuck (Some (LameDuckError False (Some e)))) DeadlineExceeded
    \<and> ((\<forall>x. ServeRet (Some x) \<notin> set evs) \<longrightarrow>
          res = Some (LameDuck (Some (LameDuckError False (Some e)))))
    \<and> (\<forall>p q. evs = p @ SigExit # q \<and> SrvExit \<notin> set p \<longrightarrow>
          res = Some (LameDuck (Some (LameDuckError False (Some e)))))
    \<and> (\<forall>p q x. evs = p @ SrvExit # q \<and> SigExit \<notin> set p \<and> ServeRet (Some x) \<in> set evs \<longrightarrow>
          res = Some x)"
proof -
  from assms(4) have "errors_Is (LameDuck (Some (LameDuckError False (Some e)))) DeadlineExceeded"
    by simp
  with shutdown_other [OF newRunner_fresh [OF assms(1)] assms(2,3,5)] show ?thesis by blast
qed

theorem Run_wrapped_deadline_witness:
  "newRunner (Some 0) [] = Returns (Inr test_runner)
   \<and> errors_Is errWrappedDeadline DeadlineExceeded
   \<and> errWrappedDeadline \<noteq> DeadlineExceeded
   \<and> Runner_Run test_runner wrapped_deadline_run =
       Some (Some (LameDuck (Some (LameDuckError False (Some errWrappedDeadline)))),
             run_of test_runner wrapped_deadline_run)
   \<and> CallClose \<notin> set (calls (run_of test_runner wrapped_deadline_run))
   \<and> errors_Is (LameDuck (Some (LameDuckError False (Some errWrappedDeadline))))
       DeadlineExceeded"
proof -
  have w: "errors_Is errWrappedDeadline DeadlineExceeded"
    and ne: "errWrappedDeadline \<noteq> DeadlineExceeded"
    by (simp_all add: errWrappedDeadline_def)
  have r: "Runner_Run test_runner wrapped_deadline_run =
       Some (Some (LameDuck (Some (LameDuckError False (Some errWrappedDeadline)))),
             run_of test_runner wrapped_deadline_run)"
    by code_simp
  have evs: "wrapped_deadline_run = [SigStart, SrvStart, Deliver SIGINT, SigRecv, ServeRet None]
        @ ShutdownRet (Some errWrappedDeadline) # [SigDefer, SigExit, SrvWake, SrvExit]"
    by (simp add: wrapped_deadline_run_def)
  from Run_wrapped_deadline [OF newRunner_test_runner evs r w ne]
  show ?thesis using newRunner_test_runner w ne r by blast
qed

text \<open>
  As stated, C10 fails: in the run below \<^verbatim>\<open>Shutdown\<close> returns an error that wraps
  \<^verbatim>\<open>context.DeadlineExceeded\<close>, but \<^verbatim>\<open>Serve\<close> had returned an error that reached the
  \<^verbatim>\<open>errgroup\<close> before, and \<^verbatim>\<open>Run\<close> returns that error instead of a
  \<^verbatim>\<open>*LameDuckError\<close>.
\<close>

theorem Run_wrapped_deadline_counterexample:
  "newRunner (Some 0) [] = Returns (Inr test_runner)
   \<and> errors_Is errWrappedDeadline DeadlineExceeded
   \<and> errWrappedDeadline \<noteq> DeadlineExceeded
   \<and> wrapped_deadline_race_run =
       [SigStart, SrvStart, Deliver SIGINT, SigRecv, ServeRet (Some errAccept), SrvExit,
        ShutdownRet (Some errWrappedDeadline), SigDefer, SigExit]
   \<and> Runner_Run test_runner wrapped_deadline_race_run =
       Some (Some errAccept, run_of test_runner wrapped_deadline_race_run)
   \<and> Some errAccept \<noteq> Some (LameDuck (Some (LameDuckError False (Some errWrappedDeadline))))"
proof -
  have "Runner_Run test_runner wrapped_deadline_race_run =
       Some (Some errAccept, run_of test_runner wrapped_deadline_race_run)"
    by code_simp
  then show ?thesis
    using newRunner_test_runner
    by (simp add: wrapped_deadline_race_run_def errWrappedDeadline_def errAccept_def)
qed

end
